theory Spec2Isabelle
  imports Complex_Main "HOL-Library.AList"
begin

section \<open>HPLC peak integration: the model of peak_integration.py\<close>

subsection \<open>Exceptions\<close>

text \<open>
  The exceptions that the stages and the library routines they call can raise. \<open>BadRef\<close>
  is not a Python exception: it stands for a reference to no object, which Python cannot
  produce, and keeps the heap model total.
\<close>

datatype error = ValueError | TypeError | IndexError | KeyError | BadRef

subsection \<open>Machine arithmetic\<close>

text \<open>
  The arrays hold machine numbers: float64 values, or int64 values when the channel
  column is an integer column. A machine number is modelled by the real number it
  denotes; comparison, negation and absolute value are exact on machine numbers and
  are those of the reals. Addition, subtraction, multiplication, division and
  \<open>np.sum\<close> are not exact: float64 rounds and int64 wraps around. They are the fields of
  an \<open>arith\<close>, which the computing stages take as a parameter: \<open>ar\<close> is the arithmetic of
  the channel column's dtype (its \<open>fdiv\<close> is the true division, which converts an int64
  operand to float64), \<open>fl\<close> is float64 arithmetic. \<open>exact\<close> is the arithmetic that
  neither rounds nor wraps.
\<close>

record arith =
  fadd :: "real \<Rightarrow> real \<Rightarrow> real"
  fsub :: "real \<Rightarrow> real \<Rightarrow> real"
  fmul :: "real \<Rightarrow> real \<Rightarrow> real"
  fdiv :: "real \<Rightarrow> real \<Rightarrow> real"
  fsum :: "real list \<Rightarrow> real"

definition exact :: arith where
  "exact = \<lparr>fadd = (+), fsub = (-), fmul = (*), fdiv = (/), fsum = sum_list\<rparr>"

subsection \<open>Derivative stage: read_chromatogram\<close>

text \<open>
  \<^verbatim>\<open>numpy.convolve(a, v)\<close> in its default mode \<open>full\<close>: the discrete linear convolution
  \<open>(a * v)[n] = \<Sum>m. a[m] v[n - m]\<close> of length \<open>len(a) + len(v) - 1\<close>; numpy raises
  ValueError when either argument is empty. Entry \<open>n\<close> is the dot product over the
  window of the indices \<open>m\<close> where the two arrays overlap, accumulated from 0 in the
  order of the window, in the arithmetic of the arrays' dtype.
\<close>

definition np_convolve :: "arith \<Rightarrow> real list \<Rightarrow> real list \<Rightarrow> error + real list" where
  "np_convolve ar a v =
     (if a = [] \<or> v = [] then Inl ValueError
      else Inr (map (\<lambda>n. foldl (\<lambda>acc m. fadd ar acc (fmul ar (a ! m) (v ! (n - m)))) 0
                            [Suc n - length v..<min (Suc n) (length a)])
                    [0..<length a + length v - 1]))"

text \<open>
  The DataFrame \<open>df_out\<close> of \<open>read_chromatogram\<close> has the columns \<open>channel\<close>,
  \<open>First diff\<close> and \<open>Second diff\<close>. A DataFrame has columns of one common length, so it is
  a list of rows; \<open>pd_DataFrame\<close> is the constructor, which raises ValueError when the
  arrays it is given differ in length. Column \<open>k\<close> of a frame \<open>df\<close> (\<open>df.iloc[:, k]\<close>) is
  \<open>map intensity df\<close>, \<open>map first_diff df\<close>, \<open>map second_diff df\<close>.
\<close>

record sample =
  intensity :: real
  first_diff :: real
  second_diff :: real

type_synonym chroma = "sample list"

definition pd_DataFrame :: "real list \<Rightarrow> real list \<Rightarrow> real list \<Rightarrow> error + chroma" where
  "pd_DataFrame c0 c1 c2 =
     (if length c1 = length c0 \<and> length c2 = length c0
      then Inr (map (\<lambda>i. \<lparr>intensity = c0 ! i, first_diff = c1 ! i, second_diff = c2 ! i\<rparr>)
                    [0..<length c0])
      else Inl ValueError)"

text \<open>
  \<open>read_chromatogram\<close>, from the point where the channel column \<open>y\<close> has been read:
  \<open>dy = np.convolve(y, [1, -1]) / 1\<close>, \<open>ddy = np.convolve(dy[1:], [1, -1]) / 1\<close> and the
  frame of \<open>y\<close>, \<open>dy[1:]\<close>, \<open>ddy[1:]\<close>. The first convolution and division are in the
  arithmetic \<open>ar\<close> of \<open>y\<close>; their result \<open>dy\<close> is a float64 array, so the second
  convolution and division are in \<open>fl\<close>.
\<close>

definition read_chromatogram :: "arith \<Rightarrow> arith \<Rightarrow> real list \<Rightarrow> error + chroma" where
  "read_chromatogram ar fl y =
     (case np_convolve ar y [1, -1] of
        Inl e \<Rightarrow> Inl e
      | Inr c \<Rightarrow>
          (let dy = map (\<lambda>x. fdiv ar x 1) c in
           case np_convolve fl (drop 1 dy) [1, -1] of
             Inl e \<Rightarrow> Inl e
           | Inr c' \<Rightarrow>
               (let ddy = map (\<lambda>x. fdiv fl x 1) c' in
                pd_DataFrame y (drop 1 dy) (drop 1 ddy))))"

subsection \<open>Peak detection: scipy.signal.find_peaks\<close>

text \<open>
  \<^verbatim>\<open>scipy.signal.find_peaks\<close> as \<open>peak_finder\<close> calls it: with \<open>height\<close>, \<open>threshold\<close>
  and \<open>distance\<close> given as scalars and every other condition \<open>None\<close>. Its steps are
  \<open>_local_maxima_1d\<close>, the height condition, \<open>_select_by_peak_threshold\<close> and
  \<open>_select_by_peak_distance\<close>, each followed by \<open>peaks = peaks[keep]\<close>.

  \<open>_local_maxima_1d\<close> walks \<open>i\<close> from 1 to \<open>i_max = len(x) - 1\<close>; at a rising edge it
  runs \<open>i_ahead\<close> over the plateau (\<open>plateau_end\<close>) and, at a falling edge behind it,
  records the plateau's midpoint.
\<close>

function plateau_end :: "real list \<Rightarrow> nat \<Rightarrow> nat \<Rightarrow> real \<Rightarrow> nat" where
  "plateau_end x i_max i_ahead v =
     (if i_ahead < i_max \<and> x ! i_ahead = v then plateau_end x i_max (Suc i_ahead) v
      else i_ahead)"
  by pat_completeness auto
termination
  by (relation "measure (\<lambda>(x, i_max, i_ahead, v). i_max - i_ahead)") auto

declare plateau_end.simps [simp del]

function local_maxima_1d_loop :: "real list \<Rightarrow> nat \<Rightarrow> nat \<Rightarrow> nat list" where
  "local_maxima_1d_loop x i_max i =
     (if i < i_max then
        (if x ! (i - 1) < x ! i then
           (let i_ahead = plateau_end x i_max (i + 1) (x ! i) in
            if x ! i_ahead < x ! i
            then ((i + (i_ahead - 1)) div 2) # local_maxima_1d_loop x i_max (i_ahead + 1)
            else local_maxima_1d_loop x i_max (i + 1))
         else local_maxima_1d_loop x i_max (i + 1))
      else [])"
  by pat_completeness auto
termination
proof (relation "measure (\<lambda>(x, i_max, i). i_max - i)", goal_cases)
  case 1
  show ?case by simp
next
  case (2 x i_max i i_ahead)
  have ge: "k \<le> plateau_end xs m k v" for xs m k v
  proof (induction xs m k v rule: plateau_end.induct)
    case (1 xs m k v)
    show ?case
    proof (cases "k < m \<and> xs ! k = v")
      case True
      with 1 have "Suc k \<le> plateau_end xs m (Suc k) v" by simp
      with True show ?thesis by (subst plateau_end.simps) simp
    next
      case False
      then show ?thesis by (subst plateau_end.simps) auto
    qed
  qed
  have "i + 1 \<le> plateau_end x i_max (i + 1) (x ! i)" by (rule ge)
  with 2 show ?case by simp
qed auto

declare local_maxima_1d_loop.simps [simp del]

definition local_maxima_1d :: "real list \<Rightarrow> nat list" where
  "local_maxima_1d x = local_maxima_1d_loop x (length x - 1) 1"

text \<open>
  \<open>_select_by_peak_threshold\<close> with \<open>tmin\<close> given and \<open>tmax = None\<close>: a peak is kept when
  the smaller of its vertical distances to its two neighbours is at least \<open>tmin\<close>.
  \<open>by_mask keep xs\<close> is the selection by a boolean mask, \<open>xs[keep]\<close>. The distances are
  written with the exact subtraction: in the call of \<open>peak_finder\<close>, with \<open>height = 4000\<close>
  and \<open>tmin = 1\<close>, float64 subtraction decides the condition alike, as it is exact on two
  operands within a factor of 2 of each other and monotone on the others.
\<close>

definition select_by_peak_threshold :: "real list \<Rightarrow> nat list \<Rightarrow> real \<Rightarrow> bool list" where
  "select_by_peak_threshold x peaks tmin =
     map (\<lambda>p. tmin \<le> min (x ! p - x ! (p - 1)) (x ! p - x ! (p + 1))) peaks"

definition by_mask :: "bool list \<Rightarrow> 'a list \<Rightarrow> 'a list" where
  "by_mask keep xs = map snd (filter fst (zip keep xs))"

text \<open>
  \<open>_select_by_peak_distance\<close>: peaks are visited from the highest priority down; a peak
  still kept removes every neighbour closer than \<open>distance\<close>, to its left (\<open>clear_left\<close>,
  \<open>k\<close> running down from \<open>j - 1\<close>) and to its right (\<open>clear_right\<close>). The priority
  of a peak is its height. \<open>np.argsort\<close> leaves the order of equal priorities open;
  \<open>argsort\<close> orders them by position.
\<close>

fun clear_left :: "nat list \<Rightarrow> nat \<Rightarrow> nat \<Rightarrow> bool list \<Rightarrow> nat \<Rightarrow> bool list" where
  "clear_left peaks distance j keep 0 = keep"
| "clear_left peaks distance j keep (Suc k) =
     (if int (peaks ! j) - int (peaks ! k) < int distance
      then clear_left peaks distance j (keep[k := False]) k
      else keep)"

function clear_right :: "nat list \<Rightarrow> nat \<Rightarrow> nat \<Rightarrow> bool list \<Rightarrow> nat \<Rightarrow> bool list" where
  "clear_right peaks distance j keep k =
     (if k < length peaks \<and> int (peaks ! k) - int (peaks ! j) < int distance
      then clear_right peaks distance j (keep[k := False]) (Suc k)
      else keep)"
  by pat_completeness auto
termination
  by (relation "measure (\<lambda>(peaks, distance, j, keep, k). length peaks - k)") auto

declare clear_right.simps [simp del]

definition argsort :: "real list \<Rightarrow> nat list" where
  "argsort priority = sort_key (\<lambda>i. priority ! i) [0..<length priority]"

definition select_by_peak_distance :: "nat list \<Rightarrow> real list \<Rightarrow> nat \<Rightarrow> bool list" where
  "select_by_peak_distance peaks priority distance =
     fold (\<lambda>j keep.
             if \<not> keep ! j then keep
             else clear_right peaks distance j (clear_left peaks distance j keep j) (j + 1))
          (rev (argsort priority))
          (replicate (length peaks) True)"

definition find_peaks :: "real list \<Rightarrow> real \<Rightarrow> real \<Rightarrow> nat \<Rightarrow> nat list \<times> real list" where
  "find_peaks x height threshold distance =
     (let peaks = local_maxima_1d x;
          peak_heights = map ((!) x) peaks;
          keep = map (\<lambda>h. height \<le> h) peak_heights;
          peaks = by_mask keep peaks;
          peak_heights = by_mask keep peak_heights;
          keep = select_by_peak_threshold x peaks threshold;
          peaks = by_mask keep peaks;
          peak_heights = by_mask keep peak_heights;
          keep = select_by_peak_distance peaks (map ((!) x) peaks) distance;
          peaks = by_mask keep peaks;
          peak_heights = by_mask keep peak_heights
      in (peaks, peak_heights))"


subsection \<open>Peak tables and interval assignment: peak_finder\<close>

text \<open>
  A peak table is the DataFrame that \<open>peak_finder\<close> creates with the columns \<open>index\<close> and
  \<open>height\<close>, and to which \<open>limits_finder\<close> adds \<open>limits idx\<close> and \<open>limits val\<close> and
  \<open>peak_integration\<close> adds \<open>Area\<close>; a column that has not been added yet is \<open>None\<close>.
  An entry of \<open>limits idx\<close> is the two-element list \<open>limit_idx\<close>, whose elements start as
  the string \<open>"None"\<close> (\<open>NoneStr\<close>) and are overwritten by the index found (\<open>Limit j\<close>).
  An interval is the pair of its first two elements; the dictionary key \<open>str(interval)\<close>
  is modelled by the interval itself, as \<open>str\<close> is injective on lists of integers.
\<close>

datatype 'a limit = NoneStr | Limit 'a

record peak_table =
  col_index :: "nat list"
  col_height :: "real list"
  col_limits_idx :: "(nat limit \<times> nat limit) list option"
  col_limits_val :: "(real limit \<times> real limit) list option"
  col_area :: "real list option"

type_synonym interval = "int \<times> int"

text \<open>
  \<open>peaks_frame\<close> is \<open>pd.DataFrame({"index": peaks, "height": prop["peak_heights"]})\<close>,
  \<open>select_rows keep t\<close> the row selection \<open>t[keep]\<close>, \<open>pre_peak_data\<close> the table of all
  peaks of the chromatogram and \<open>post_peak_data\<close> the dictionary built by the loop over
  \<open>intervals\<close>, in insertion order.
\<close>

definition peaks_frame :: "nat list \<Rightarrow> real list \<Rightarrow> error + peak_table" where
  "peaks_frame peaks heights =
     (if length heights = length peaks
      then Inr \<lparr>col_index = peaks, col_height = heights, col_limits_idx = None,
                col_limits_val = None, col_area = None\<rparr>
      else Inl ValueError)"

definition select_rows :: "bool list \<Rightarrow> peak_table \<Rightarrow> peak_table" where
  "select_rows keep t =
     \<lparr>col_index = by_mask keep (col_index t), col_height = by_mask keep (col_height t),
      col_limits_idx = map_option (by_mask keep) (col_limits_idx t),
      col_limits_val = map_option (by_mask keep) (col_limits_val t),
      col_area = map_option (by_mask keep) (col_area t)\<rparr>"

definition pre_peak_data :: "real list \<Rightarrow> error + peak_table" where
  "pre_peak_data x = (case find_peaks x 4000 1 2 of (peaks, heights) \<Rightarrow> peaks_frame peaks heights)"

definition post_peak_data :: "peak_table \<Rightarrow> interval list \<Rightarrow> (interval \<times> peak_table) list" where
  "post_peak_data pre intervals =
     fold (\<lambda>interval post.
             AList.update interval
               (select_rows (map (\<lambda>i. fst interval < int i \<and> int i < snd interval) (col_index pre)) pre)
               post)
          intervals []"

subsection \<open>Objects and references\<close>

text \<open>
  The stages pass DataFrames and a dictionary around by reference and \<open>limits_finder\<close> and
  \<open>peak_integration\<close> assign columns to the tables they are given. The heap holds the
  objects: the chromatogram frames, the peak tables, and the dictionaries from interval
  key to the reference of a peak table.
\<close>

record heap =
  chromas :: "nat \<rightharpoonup> chroma"
  frames :: "nat \<rightharpoonup> peak_table"
  dicts :: "nat \<rightharpoonup> (interval \<times> nat) list"
  next_ref :: nat

definition empty_heap :: heap where
  "empty_heap = \<lparr>chromas = Map.empty, frames = Map.empty, dicts = Map.empty, next_ref = 0\<rparr>"

definition new_chroma :: "heap \<Rightarrow> chroma \<Rightarrow> heap \<times> nat" where
  "new_chroma h df = (h\<lparr>chromas := (chromas h)(next_ref h \<mapsto> df), next_ref := Suc (next_ref h)\<rparr>, next_ref h)"

definition new_frame :: "heap \<Rightarrow> peak_table \<Rightarrow> heap \<times> nat" where
  "new_frame h t = (h\<lparr>frames := (frames h)(next_ref h \<mapsto> t), next_ref := Suc (next_ref h)\<rparr>, next_ref h)"

definition new_dict :: "heap \<Rightarrow> (interval \<times> nat) list \<Rightarrow> heap \<times> nat" where
  "new_dict h d = (h\<lparr>dicts := (dicts h)(next_ref h \<mapsto> d), next_ref := Suc (next_ref h)\<rparr>, next_ref h)"

fun new_frames :: "heap \<Rightarrow> (interval \<times> peak_table) list \<Rightarrow> heap \<times> (interval \<times> nat) list" where
  "new_frames h [] = (h, [])"
| "new_frames h ((key, t) # rest) =
     (case new_frame h t of (h1, r) \<Rightarrow>
        (case new_frames h1 rest of (h2, d) \<Rightarrow> (h2, (key, r) # d)))"

text \<open>
  \<open>peak_finder(data, intervals)\<close>: detection on column 0 of \<open>data\<close>, then one new table
  per interval key and a new dictionary.
\<close>

definition peak_finder :: "heap \<Rightarrow> nat \<Rightarrow> interval list \<Rightarrow> error + heap \<times> nat" where
  "peak_finder h data intervals =
     (case chromas h data of
        None \<Rightarrow> Inl BadRef
      | Some df \<Rightarrow>
          (case pre_peak_data (map intensity df) of
             Inl e \<Rightarrow> Inl e
           | Inr pre \<Rightarrow>
               (case new_frames h (post_peak_data pre intervals) of
                  (h1, d) \<Rightarrow> Inr (new_dict h1 d))))"

subsection \<open>Boundary search: limits_finder\<close>

text \<open>
  \<open>limits_finder(chroma_data, peaks_data, intervals, min_slope)\<close>. For the peak at index
  \<open>p\<close>, \<open>peak_limits\<close> is the body of the loop over the peaks: the forward loop over
  \<open>range(p + width, len(dy))\<close> and the backward loop over \<open>reversed(range(0, p - width))\<close>,
  each left at the first \<open>j\<close> with \<open>abs(dy[j]) < min_slope\<close>. \<open>p - width\<close> is a natural
  number here, so the range is empty when \<open>p \<le> width\<close>, as Python's is for a negative end.
  \<open>limits_loop\<close> is the loop over the keys of \<open>peaks_data\<close>: the table of the key gets
  its two columns assigned in place and is stored back under its key.
\<close>

definition width :: nat where
  "width = 5"

definition peak_limits ::
  "real list \<Rightarrow> real list \<Rightarrow> real \<Rightarrow> nat \<Rightarrow> (nat limit \<times> nat limit) \<times> (real limit \<times> real limit)" where
  "peak_limits y dy min_slope p =
     (let right = find (\<lambda>j. \<bar>dy ! j\<bar> < min_slope) [p + width..<length dy];
          left = find (\<lambda>j. \<bar>dy ! j\<bar> < min_slope) (rev [0..<p - width])
      in ((case left of None \<Rightarrow> NoneStr | Some j \<Rightarrow> Limit j,
           case right of None \<Rightarrow> NoneStr | Some j \<Rightarrow> Limit j),
          (case left of None \<Rightarrow> NoneStr | Some j \<Rightarrow> Limit (y ! j),
           case right of None \<Rightarrow> NoneStr | Some j \<Rightarrow> Limit (y ! j))))"

definition set_limits :: "real list \<Rightarrow> real list \<Rightarrow> real \<Rightarrow> peak_table \<Rightarrow> peak_table" where
  "set_limits y dy min_slope peaks_info =
     (let limits = map (peak_limits y dy min_slope) (col_index peaks_info)
      in peaks_info\<lparr>col_limits_idx := Some (map fst limits),
                     col_limits_val := Some (map snd limits)\<rparr>)"

fun limits_loop ::
  "heap \<Rightarrow> real list \<Rightarrow> real list \<Rightarrow> real \<Rightarrow> nat \<Rightarrow> interval list \<Rightarrow> error + heap" where
  "limits_loop h y dy min_slope peaks_data [] = Inr h"
| "limits_loop h y dy min_slope peaks_data (key # keys) =
     (case dicts h peaks_data of
        None \<Rightarrow> Inl BadRef
      | Some d \<Rightarrow>
          (case map_of d key of
             None \<Rightarrow> Inl KeyError
           | Some r \<Rightarrow>
               (case frames h r of
                  None \<Rightarrow> Inl BadRef
                | Some peaks_info \<Rightarrow>
                    limits_loop
                      (h\<lparr>frames := (frames h)(r \<mapsto> set_limits y dy min_slope peaks_info),
                         dicts := (dicts h)(peaks_data \<mapsto> AList.update key r d)\<rparr>)
                      y dy min_slope peaks_data keys)))"

definition limits_finder ::
  "heap \<Rightarrow> nat \<Rightarrow> nat \<Rightarrow> interval list \<Rightarrow> real \<Rightarrow> error + heap \<times> nat" where
  "limits_finder h chroma_data peaks_data intervals min_slope =
     (case chromas h chroma_data of
        None \<Rightarrow> Inl BadRef
      | Some df \<Rightarrow>
          (case dicts h peaks_data of
             None \<Rightarrow> Inl BadRef
           | Some d \<Rightarrow>
               (case limits_loop h (map intensity df) (map (\<lambda>s. \<bar>first_diff s\<bar>) df)
                       min_slope peaks_data (map fst d) of
                  Inl e \<Rightarrow> Inl e
                | Inr h' \<Rightarrow> Inr (h', peaks_data))))"

subsection \<open>Integration: peak_integration\<close>

text \<open>
  \<^verbatim>\<open>scipy.integrate.simpson(y, x=None, dx, even=None)\<close> of SciPy 1.11 to 1.13, the
  releases that accept \<open>even=None\<close> for every number of samples. \<open>np_get\<close> is indexing
  with a possibly negative index, \<open>py_slice2 y start stop\<close> the slice
  \<open>y[start:stop:2]\<close>, and \<open>basic_simpson\<close> is \<open>_basic_simpson\<close> for \<open>x = None\<close>.
  For an even number \<open>N\<close> of samples other than 2, \<open>simpson\<close> applies \<open>_basic_simpson\<close>
  up to \<open>N - 3\<close> and adds the correction for the last interval, whose weights it
  computes with \<open>np.true_divide(num, den, where=den != 0)\<close>. All of it is float64
  arithmetic.
\<close>

definition np_get :: "real list \<Rightarrow> int \<Rightarrow> error + real" where
  "np_get y i =
     (let n = int (length y); j = (if i < 0 then n + i else i)
      in if 0 \<le> j \<and> j < n then Inr (y ! nat j) else Inl IndexError)"

definition py_slice2 :: "real list \<Rightarrow> nat \<Rightarrow> int \<Rightarrow> real list" where
  "py_slice2 y start stop =
     (let n = int (length y);
          stop' = (if stop < 0 then max 0 (n + stop) else min stop n)
      in map ((!) y) (filter (\<lambda>k. even (k - start)) [start..<nat stop']))"

definition basic_simpson :: "arith \<Rightarrow> real list \<Rightarrow> nat \<Rightarrow> int \<Rightarrow> real \<Rightarrow> real" where
  "basic_simpson fl y start stop dx =
     fmul fl
       (fsum fl (map (\<lambda>(a, b, c). fadd fl (fadd fl a (fmul fl 4 b)) c)
                   (zip (py_slice2 y start stop)
                      (zip (py_slice2 y (start + 1) (stop + 1))
                           (py_slice2 y (start + 2) (stop + 2))))))
       (fdiv fl dx 3)"

definition true_divide :: "arith \<Rightarrow> real \<Rightarrow> real \<Rightarrow> real" where
  "true_divide fl num den = (if den \<noteq> 0 then fdiv fl num den else 0)"

definition simpson :: "arith \<Rightarrow> real list \<Rightarrow> real \<Rightarrow> error + real" where
  "simpson fl y dx =
     (let N = length y in
      if even N then
        (if N = 2 then
           (case np_get y (-1) of Inl e \<Rightarrow> Inl e | Inr y1 \<Rightarrow>
            case np_get y (-2) of Inl e \<Rightarrow> Inl e | Inr y2 \<Rightarrow>
              (let val = fadd fl 0 (fmul fl (fmul fl 0.5 dx) (fadd fl y1 y2))
               in Inr (fadd fl 0 val)))
         else
           (let result = basic_simpson fl y 0 (int N - 3) dx;
                h0 = dx; h1 = dx;
                alpha = true_divide fl
                          (fadd fl (fmul fl 2 (fmul fl h1 h1)) (fmul fl (fmul fl 3 h0) h1))
                          (fmul fl 6 (fadd fl h1 h0));
                beta = true_divide fl
                         (fadd fl (fmul fl h1 h1) (fmul fl (fmul fl 3 h0) h1))
                         (fmul fl 6 h0);
                eta = true_divide fl
                        (fmul fl 1 (fmul fl (fmul fl h1 h1) h1))
                        (fmul fl (fmul fl 6 h0) (fadd fl h0 h1))
            in case np_get y (-1) of Inl e \<Rightarrow> Inl e | Inr y1 \<Rightarrow>
               case np_get y (-2) of Inl e \<Rightarrow> Inl e | Inr y2 \<Rightarrow>
               case np_get y (-3) of Inl e \<Rightarrow> Inl e | Inr y3 \<Rightarrow>
                 Inr (fadd fl
                        (fadd fl result
                           (fsub fl (fadd fl (fmul fl alpha y1) (fmul fl beta y2)) (fmul fl eta y3)))
                        0)))
      else Inr (basic_simpson fl y 0 (int N - 2) dx))"

text \<open>
  \<open>peak_integration(chroma_data, peaks_info)\<close>. \<open>select_between\<close> is
  \<open>points[(points > limit[0]) & (points < limit[1])]\<close>; comparing the array with the string
  \<open>"None"\<close> raises TypeError. \<open>areas\<close> is the loop over \<open>limits_list\<close>, \<open>set_area\<close> reads
  column 2 of a table and assigns its \<open>Area\<close> column. The function iterates over the
  module-level variable \<open>peaks_data\<close> and never reads its parameter \<open>peaks_info\<close>, so the
  model takes the global as a further argument, written before the heap.
\<close>

definition select_between :: "real list \<Rightarrow> nat limit \<times> nat limit \<Rightarrow> error + real list" where
  "select_between points limit =
     (case fst limit of
        NoneStr \<Rightarrow> Inl TypeError
      | Limit a \<Rightarrow>
          (case snd limit of
             NoneStr \<Rightarrow> Inl TypeError
           | Limit b \<Rightarrow> Inr (by_mask (map (\<lambda>v. real a < v \<and> v < real b) points) points)))"

fun areas :: "arith \<Rightarrow> real list \<Rightarrow> (nat limit \<times> nat limit) list \<Rightarrow> error + real list" where
  "areas fl points [] = Inr []"
| "areas fl points (limit # limits_list) =
     (case select_between points limit of
        Inl e \<Rightarrow> Inl e
      | Inr y \<Rightarrow>
          (case simpson fl y 1 of
             Inl e \<Rightarrow> Inl e
           | Inr a \<Rightarrow>
               (case areas fl points limits_list of
                  Inl e \<Rightarrow> Inl e
                | Inr rest \<Rightarrow> Inr (a # rest))))"

definition set_area :: "arith \<Rightarrow> real list \<Rightarrow> peak_table \<Rightarrow> error + peak_table" where
  "set_area fl points peaks_info =
     (case col_limits_idx peaks_info of
        None \<Rightarrow> Inl IndexError
      | Some limits_list \<Rightarrow>
          (case areas fl points limits_list of
             Inl e \<Rightarrow> Inl e
           | Inr a \<Rightarrow> Inr (peaks_info\<lparr>col_area := Some a\<rparr>)))"

fun integration_loop ::
  "arith \<Rightarrow> heap \<Rightarrow> real list \<Rightarrow> nat \<Rightarrow> interval list \<Rightarrow> error + heap" where
  "integration_loop fl h points peaks_data [] = Inr h"
| "integration_loop fl h points peaks_data (interval # keys) =
     (case dicts h peaks_data of
        None \<Rightarrow> Inl BadRef
      | Some d \<Rightarrow>
          (case map_of d interval of
             None \<Rightarrow> Inl KeyError
           | Some r \<Rightarrow>
               (case frames h r of
                  None \<Rightarrow> Inl BadRef
                | Some peaks_info \<Rightarrow>
                    (case set_area fl points peaks_info of
                       Inl e \<Rightarrow> Inl e
                     | Inr peaks_info' \<Rightarrow>
                         integration_loop fl
                           (h\<lparr>frames := (frames h)(r \<mapsto> peaks_info'),
                              dicts := (dicts h)(peaks_data \<mapsto> AList.update interval r d)\<rparr>)
                           points peaks_data keys))))"

definition peak_integration ::
  "arith \<Rightarrow> nat \<Rightarrow> heap \<Rightarrow> nat \<Rightarrow> nat \<Rightarrow> error + heap \<times> nat" where
  "peak_integration fl global_peaks_data h chroma_data peaks_info =
     (case chromas h chroma_data of
        None \<Rightarrow> Inl BadRef
      | Some df \<Rightarrow>
          (case dicts h global_peaks_data of
             None \<Rightarrow> Inl BadRef
           | Some d \<Rightarrow>
               (case integration_loop fl h (map intensity df) global_peaks_data (map fst d) of
                  Inl e \<Rightarrow> Inl e
                | Inr h' \<Rightarrow> Inr (h', global_peaks_data))))"

subsection \<open>The script\<close>

text \<open>
  The module-level script: the four stages in sequence, with \<open>min_slope = 5\<close>, each result
  bound to the global \<open>peaks_data\<close>. \<open>tables_of\<close> reads the final dictionary out of the
  heap, as the script prints it.
\<close>

fun deref_frames :: "heap \<Rightarrow> (interval \<times> nat) list \<Rightarrow> error + (interval \<times> peak_table) list" where
  "deref_frames h [] = Inr []"
| "deref_frames h ((key, r) # d) =
     (case frames h r of
        None \<Rightarrow> Inl BadRef
      | Some t \<Rightarrow> (case deref_frames h d of Inl e \<Rightarrow> Inl e | Inr rest \<Rightarrow> Inr ((key, t) # rest)))"

definition tables_of :: "heap \<Rightarrow> nat \<Rightarrow> error + (interval \<times> peak_table) list" where
  "tables_of h peaks_data =
     (case dicts h peaks_data of None \<Rightarrow> Inl BadRef | Some d \<Rightarrow> deref_frames h d)"

definition pipeline ::
  "arith \<Rightarrow> arith \<Rightarrow> real list \<Rightarrow> interval list \<Rightarrow> error + (interval \<times> peak_table) list" where
  "pipeline ar fl y intervals =
     (case read_chromatogram ar fl y of
        Inl e \<Rightarrow> Inl e
      | Inr df \<Rightarrow>
          (case new_chroma empty_heap df of
             (h0, chroma_data) \<Rightarrow>
               (case peak_finder h0 chroma_data intervals of
                  Inl e \<Rightarrow> Inl e
                | Inr (h1, peaks_data) \<Rightarrow>
                    (case limits_finder h1 chroma_data peaks_data intervals 5 of
                       Inl e \<Rightarrow> Inl e
                     | Inr (h2, peaks_data) \<Rightarrow>
                         (case peak_integration fl peaks_data h2 chroma_data peaks_data of
                            Inl e \<Rightarrow> Inl e
                          | Inr (h3, peaks_data) \<Rightarrow> tables_of h3 peaks_data)))))"

section \<open>Properties\<close>

subsection \<open>The derivative columns\<close>

text \<open>
  What the derivative stage needs of an arithmetic on the samples \<open>a\<close> of a column, for the
  two-term dot products with the kernel \<open>[1, -1]\<close> to be differences: multiplying a sample
  by 1 returns it, \<open>0 + x \<cdot> (-1)\<close> is \<open>- x\<close>, and \<open>(- z) + x\<close> is the arithmetic's difference
  of \<open>x\<close> and \<open>z\<close>. float64 arithmetic has these properties, rounding included; so has
  int64 arithmetic with wrap-around, on the samples other than the least int64.
\<close>

definition kernel_laws :: "arith \<Rightarrow> real list \<Rightarrow> bool" where
  "kernel_laws ar a \<longleftrightarrow>
     (\<forall>x \<in> set a. fmul ar x 1 = x \<and> fadd ar 0 (fmul ar x (- 1)) = - x)
     \<and> (\<forall>x \<in> set a. \<forall>z \<in> set a. fadd ar (- z) x = fsub ar x z)"

text \<open>
  The difference operator that \<open>read_chromatogram\<close> stores, in the arithmetic \<open>ar\<close>: entry
  \<open>i\<close> is the next sample minus sample \<open>i\<close>, divided by 1; the signal is followed by an
  implicit 0, so the last entry is the negated last sample, divided by 1.
\<close>

definition forward_diff :: "arith \<Rightarrow> real list \<Rightarrow> real list" where
  "forward_diff ar a =
     map (\<lambda>i. fdiv ar (if Suc i < length a then fsub ar (a ! Suc i) (a ! i) else - a ! i) 1)
       [0..<length a]"

text \<open>
  The first derivative in the words of the specification: \<open>firstDiff[i] = signal[i] -
  signal[i - 1]\<close> for \<open>i \<ge> 1\<close> and \<open>firstDiff[0] = signal[0]\<close>.
\<close>

definition spec_first_diff :: "arith \<Rightarrow> real list \<Rightarrow> real list" where
  "spec_first_diff ar s =
     map (\<lambda>i. if i = 0 then s ! 0 else fsub ar (s ! i) (s ! (i - 1))) [0..<length s]"



lemma kernel_laws_exact: "kernel_laws exact a"
  by (simp add: kernel_laws_def exact_def)

lemma convolve_window_inner:
  assumes "0 < n" and "n < length a"
  shows "foldl (\<lambda>acc m. fadd ar acc (fmul ar (a ! m) ([1, - 1] ! (n - m)))) 0
           [Suc n - length [1, - 1 :: real]..<min (Suc n) (length a)]
       = fadd ar (fadd ar 0 (fmul ar (a ! (n - 1)) (- 1))) (fmul ar (a ! n) 1)"
proof -
  have w: "[Suc n - length [1, - 1 :: real]..<min (Suc n) (length a)] = [n - 1, n]"
  proof -
    have "min (Suc n) (length a) = Suc n" using assms(2) by simp
    moreover have "Suc n - length [1, - 1 :: real] = n - 1" by simp
    moreover have "[n - 1..<Suc n] = [n - 1, n]" using assms(1) by (simp add: upt_rec)
    ultimately show ?thesis by simp
  qed
  have "n - (n - 1) = 1" using assms(1) by simp
  then show ?thesis unfolding w by simp
qed

lemma convolve_window_last:
  assumes "a \<noteq> []"
  shows "foldl (\<lambda>acc m. fadd ar acc (fmul ar (a ! m) ([1, - 1] ! (length a - m)))) 0
           [Suc (length a) - length [1, - 1 :: real]..<min (Suc (length a)) (length a)]
       = fadd ar 0 (fmul ar (a ! (length a - 1)) (- 1))"
proof -
  from assms have pos: "0 < length a" by simp
  have s: "Suc (length a - 1) = length a" using pos by arith
  have "[length a - 1..<length a] = [length a - 1..<Suc (length a - 1)]" by (simp only: s)
  also have "\<dots> = [length a - 1]" by simp
  finally have w: "[Suc (length a) - length [1, - 1 :: real]..<min (Suc (length a)) (length a)] = [length a - 1]"
    by simp
  have "length a - (length a - 1) = 1" using pos by arith
  then show ?thesis unfolding w by simp
qed

lemma np_convolve_kernel:
  assumes "a \<noteq> []"
  shows "\<exists>c. np_convolve ar a [1, - 1] = Inr c \<and> length c = Suc (length a)
           \<and> (\<forall>n. 0 < n \<and> n < length a \<longrightarrow>
                 c ! n = fadd ar (fadd ar 0 (fmul ar (a ! (n - 1)) (- 1))) (fmul ar (a ! n) 1))
           \<and> c ! length a = fadd ar 0 (fmul ar (a ! (length a - 1)) (- 1))"
proof -
  let ?c = "map (\<lambda>n. foldl (\<lambda>acc m. fadd ar acc (fmul ar (a ! m) ([1, - 1] ! (n - m)))) 0
                            [Suc n - length [1, - 1 :: real]..<min (Suc n) (length a)])
                [0..<Suc (length a)]"
  have c: "np_convolve ar a [1, - 1] = Inr ?c"
    using assms unfolding np_convolve_def by (simp del: upt_Suc)
  have len: "length ?c = Suc (length a)" by (simp del: upt_Suc)
  have inner: "?c ! n = fadd ar (fadd ar 0 (fmul ar (a ! (n - 1)) (- 1))) (fmul ar (a ! n) 1)"
    if "0 < n" "n < length a" for n
  proof -
    have "n < Suc (length a)" using that by simp
    then have "?c ! n = foldl (\<lambda>acc m. fadd ar acc (fmul ar (a ! m) ([1, - 1] ! (n - m)))) 0
                            [Suc n - length [1, - 1 :: real]..<min (Suc n) (length a)]"
      by (simp only: nth_map_upt add_0 length_upt diff_zero)
    then show ?thesis using convolve_window_inner [OF that] by simp
  qed
  have last: "?c ! length a = fadd ar 0 (fmul ar (a ! (length a - 1)) (- 1))"
  proof -
    have "length a < Suc (length a)" by simp
    then have "?c ! length a = foldl (\<lambda>acc m. fadd ar acc (fmul ar (a ! m) ([1, - 1] ! (length a - m)))) 0
           [Suc (length a) - length [1, - 1 :: real]..<min (Suc (length a)) (length a)]"
      by (simp only: nth_map_upt add_0 length_upt diff_zero)
    then show ?thesis using convolve_window_last [OF assms] by simp
  qed
  from c len inner last show ?thesis by blast
qed

lemma length_forward_diff [simp]: "length (forward_diff ar a) = length a"
  by (simp add: forward_diff_def)

lemma nth_forward_diff:
  "i < length a \<Longrightarrow>
   forward_diff ar a ! i
     = fdiv ar (if Suc i < length a then fsub ar (a ! Suc i) (a ! i) else - a ! i) 1"
  by (simp add: forward_diff_def)

lemma np_convolve_drop:
  assumes "a \<noteq> []" and "kernel_laws ar a"
  shows "\<exists>c. np_convolve ar a [1, - 1] = Inr c \<and> length c = Suc (length a)
           \<and> drop 1 (map (\<lambda>x. fdiv ar x 1) c) = forward_diff ar a"
proof -
  from np_convolve_kernel [OF assms(1), of ar]
  obtain c where c: "np_convolve ar a [1, - 1] = Inr c" and len: "length c = Suc (length a)"
    and inner: "\<And>n. 0 < n \<Longrightarrow> n < length a \<Longrightarrow>
                 c ! n = fadd ar (fadd ar 0 (fmul ar (a ! (n - 1)) (- 1))) (fmul ar (a ! n) 1)"
    and last: "c ! length a = fadd ar 0 (fmul ar (a ! (length a - 1)) (- 1))"
    by blast
  have "drop 1 (map (\<lambda>x. fdiv ar x 1) c) = forward_diff ar a"
  proof (rule nth_equalityI)
    show "length (drop 1 (map (\<lambda>x. fdiv ar x 1) c)) = length (forward_diff ar a)"
      using len by simp
  next
    fix i assume "i < length (drop 1 (map (\<lambda>x. fdiv ar x 1) c))"
    then have i: "i < length a" using len by simp
    then have ai: "a ! i \<in> set a" by simp
    have l: "drop 1 (map (\<lambda>x. fdiv ar x 1) c) ! i = fdiv ar (c ! Suc i) 1"
      using i len by simp
    show "drop 1 (map (\<lambda>x. fdiv ar x 1) c) ! i = forward_diff ar a ! i"
    proof (cases "Suc i < length a")
      case True
      then have asi: "a ! Suc i \<in> set a" by simp
      have "c ! Suc i = fadd ar (fadd ar 0 (fmul ar (a ! i) (- 1))) (fmul ar (a ! Suc i) 1)"
        using inner [of "Suc i"] True by simp
      also have "\<dots> = fadd ar (- a ! i) (a ! Suc i)"
        using assms(2) ai asi unfolding kernel_laws_def by simp
      also have "\<dots> = fsub ar (a ! Suc i) (a ! i)"
        using assms(2) ai asi unfolding kernel_laws_def by blast
      finally show ?thesis using l True i by (simp add: nth_forward_diff)
    next
      case False
      with i have e: "Suc i = length a" by simp
      then have "length a - 1 = i" by simp
      with e have "c ! Suc i = fadd ar 0 (fmul ar (a ! i) (- 1))" using last by simp
      also have "\<dots> = - a ! i" using assms(2) ai unfolding kernel_laws_def by blast
      finally show ?thesis using l False i by (simp add: nth_forward_diff)
    qed
  qed
  with c len show ?thesis by blast
qed

lemma read_chromatogram_returns:
  assumes "y \<noteq> []"
  shows "\<exists>df. read_chromatogram ar fl y = Inr df \<and> map intensity df = y"
proof -
  from np_convolve_kernel [OF assms, of ar]
  obtain c where c: "np_convolve ar y [1, - 1] = Inr c" and len: "length c = Suc (length y)"
    by blast
  let ?dy = "drop 1 (map (\<lambda>x. fdiv ar x 1) c)"
  have ldy: "length ?dy = length y" using len by simp
  with assms have "?dy \<noteq> []" by auto
  from np_convolve_kernel [OF this, of fl]
  obtain c' where c': "np_convolve fl ?dy [1, - 1] = Inr c'" and len': "length c' = Suc (length ?dy)"
    by blast
  let ?ddy = "drop 1 (map (\<lambda>x. fdiv fl x 1) c')"
  have lddy: "length ?ddy = length y" using len' ldy by simp
  have "read_chromatogram ar fl y = pd_DataFrame y ?dy ?ddy"
    unfolding read_chromatogram_def Let_def using c c' by simp
  moreover have "\<exists>df. pd_DataFrame y ?dy ?ddy = Inr df \<and> map intensity df = y"
    unfolding pd_DataFrame_def using ldy lddy
    by (auto simp: map_nth comp_def intro!: nth_equalityI)
  ultimately show ?thesis by simp
qed

lemma read_chromatogram_columns:
  assumes "y \<noteq> []" and "kernel_laws ar y"
  shows "\<exists>df. read_chromatogram ar fl y = Inr df \<and> map intensity df = y
           \<and> map first_diff df = forward_diff ar y
           \<and> length (map second_diff df) = length y
           \<and> (kernel_laws fl (forward_diff ar y)
                \<longrightarrow> map second_diff df = forward_diff fl (forward_diff ar y))"
proof -
  from np_convolve_drop [OF assms]
  obtain c where c: "np_convolve ar y [1, - 1] = Inr c"
    and dy: "drop 1 (map (\<lambda>x. fdiv ar x 1) c) = forward_diff ar y"
    by blast
  let ?dy = "forward_diff ar y"
  have ne: "?dy \<noteq> []" using assms(1) by (metis length_forward_diff length_0_conv)
  from np_convolve_kernel [OF ne, of fl]
  obtain c' where c': "np_convolve fl ?dy [1, - 1] = Inr c'" and len': "length c' = Suc (length ?dy)"
    by blast
  let ?ddy = "drop 1 (map (\<lambda>x. fdiv fl x 1) c')"
  have lddy: "length ?ddy = length y" using len' by simp
  let ?df = "map (\<lambda>i. \<lparr>intensity = y ! i, first_diff = ?dy ! i, second_diff = ?ddy ! i\<rparr>)
               [0..<length y]"
  have r: "read_chromatogram ar fl y = Inr ?df"
    unfolding read_chromatogram_def Let_def using c c' dy lddy
    by (simp add: pd_DataFrame_def)
  have i: "map intensity ?df = y" by (auto simp: map_nth comp_def intro!: nth_equalityI)
  have f: "map first_diff ?df = ?dy" by (auto simp: comp_def intro!: nth_equalityI)
  have s: "map second_diff ?df = ?ddy" using lddy by (auto simp: comp_def intro!: nth_equalityI)
  have "?ddy = forward_diff fl ?dy" if "kernel_laws fl ?dy"
  proof -
    from np_convolve_drop [OF ne that] c' show ?thesis by auto
  qed
  with r i f s lddy show ?thesis by (metis (no_types, lifting))
qed

text \<open>
  C10, amended. For every non-empty input signal of length \<open>n\<close>, in an arithmetic \<open>ar\<close>
  of the signal's dtype with the three properties above (float64 with its rounding, int64
  with its wrap-around), \<open>read_chromatogram\<close> returns a frame whose \<open>First diff\<close> and
  \<open>Second diff\<close> columns both have length \<open>n\<close>; the stored \<open>First diff\<close> entry at position
  \<open>i\<close> is \<open>(signal[i + 1] - signal[i]) / 1\<close> for every \<open>i < n - 1\<close>, and its final entry is
  \<open>(- signal[n - 1]) / 1\<close>, the difference and the division being those of \<open>ar\<close>.
\<close>

theorem read_chromatogram_first_diff_shifted:
  assumes "y \<noteq> []" and "kernel_laws ar y"
  shows "\<exists>df. read_chromatogram ar fl y = Inr df
            \<and> length (map first_diff df) = length y
            \<and> length (map second_diff df) = length y
            \<and> (\<forall>i. Suc i < length y
                   \<longrightarrow> map first_diff df ! i = fdiv ar (fsub ar (y ! Suc i) (y ! i)) 1)
            \<and> map first_diff df ! (length y - 1) = fdiv ar (- y ! (length y - 1)) 1"
proof -
  from read_chromatogram_columns [OF assms, of fl]
  obtain df where df: "read_chromatogram ar fl y = Inr df"
    and f: "map first_diff df = forward_diff ar y"
    and s: "length (map second_diff df) = length y"
    by blast
  from assms(1) have n: "length y - 1 < length y" by (cases y) simp_all
  have "\<forall>i. Suc i < length y \<longrightarrow> forward_diff ar y ! i = fdiv ar (fsub ar (y ! Suc i) (y ! i)) 1"
    by (simp add: nth_forward_diff)
  moreover have "forward_diff ar y ! (length y - 1) = fdiv ar (- y ! (length y - 1)) 1"
  proof -
    have "\<not> Suc (length y - 1) < length y" by simp
    then show ?thesis unfolding nth_forward_diff [OF n] by simp
  qed
  moreover have "length (map first_diff df) = length y" unfolding f by simp
  ultimately show ?thesis using df f s by auto
qed

theorem read_chromatogram_first_diff_shifted_witness:
  "[1, 3, 6 :: real] \<noteq> [] \<and> kernel_laws exact [1, 3, 6]
   \<and> (\<exists>df. read_chromatogram exact exact [1, 3, 6] = Inr df
          \<and> length (map first_diff df) = 3 \<and> length (map second_diff df) = 3
          \<and> map first_diff df ! 0 = 3 - 1 \<and> map first_diff df ! 1 = 6 - 3
          \<and> map first_diff df ! 2 = - 6)"
proof -
  have k: "kernel_laws exact [1, 3, 6]" by (rule kernel_laws_exact)
  have ne: "[1, 3, 6 :: real] \<noteq> []" by simp
  from read_chromatogram_first_diff_shifted [OF ne k, of exact]
  obtain df where df: "read_chromatogram exact exact [1, 3, 6] = Inr df"
    and l: "length (map first_diff df) = length [1, 3, 6 :: real]"
      "length (map second_diff df) = length [1, 3, 6 :: real]"
    and d: "\<forall>i. Suc i < length [1, 3, 6 :: real]
              \<longrightarrow> map first_diff df ! i
                  = fdiv exact (fsub exact ([1, 3, 6] ! Suc i) ([1, 3, 6] ! i)) 1"
    and e: "map first_diff df ! (length [1, 3, 6 :: real] - 1)
              = fdiv exact (- [1, 3, 6] ! (length [1, 3, 6 :: real] - 1)) 1"
    by blast
  from d [rule_format, of 0] have d0: "map first_diff df ! 0 = 3 - 1" by (simp add: exact_def)
  from d [rule_format, of 1] have d1: "map first_diff df ! 1 = 6 - 3" by (simp add: exact_def)
  from e have d2: "map first_diff df ! 2 = - 6" by (simp add: exact_def numeral_2_eq_2)
  from l have "length (map first_diff df) = 3" "length (map second_diff df) = 3" by simp_all
  with ne k df d0 d1 d2 show ?thesis by blast
qed

text \<open>
  C10 as stated fails on the empty signal: \<open>np.convolve\<close> raises ValueError and no
  frame is produced.
\<close>

theorem read_chromatogram_empty_signal:
  "read_chromatogram exact exact [] = Inl ValueError"
  by (simp add: read_chromatogram_def np_convolve_def)

text \<open>
  C2, amended. For every non-empty input signal, in arithmetics \<open>ar\<close> of the signal and
  \<open>fl\<close> of the first-derivative column with the three properties above, the
  first-derivative column is the forward difference \<open>firstDiff[i] = (signal[i + 1] -
  signal[i]) / 1\<close> taken in \<open>ar\<close>, the signal treated as implicitly followed by 0 (so the
  last entry is \<open>(- signal[n - 1]) / 1\<close>), and the second-derivative column is that same
  difference operator, taken in \<open>fl\<close>, applied to the first-derivative column.
\<close>

theorem read_chromatogram_forward_difference:
  assumes "y \<noteq> []" and "kernel_laws ar y" and "kernel_laws fl (forward_diff ar y)"
  shows "\<exists>df. read_chromatogram ar fl y = Inr df
            \<and> map intensity df = y
            \<and> map first_diff df = forward_diff ar y
            \<and> map second_diff df = forward_diff fl (map first_diff df)"
  using read_chromatogram_columns [OF assms(1,2), of fl] assms(3) by auto

theorem read_chromatogram_forward_difference_witness:
  "[1, 3, 6 :: real] \<noteq> [] \<and> kernel_laws exact [1, 3, 6]
   \<and> kernel_laws exact (forward_diff exact [1, 3, 6])
   \<and> forward_diff exact [1, 3, 6] = [2, 3, - 6]
   \<and> forward_diff exact [2, 3, - 6] = [1, - 9, 6]
   \<and> (\<exists>df. read_chromatogram exact exact [1, 3, 6] = Inr df
          \<and> map intensity df = [1, 3, 6]
          \<and> map first_diff df = [2, 3, - 6]
          \<and> map second_diff df = [1, - 9, 6])"
proof -
  have f1: "forward_diff exact [1, 3, 6] = [2, 3, - 6]"
    and f2: "forward_diff exact [2, 3, - 6] = [1, - 9, 6]"
    by (simp_all add: forward_diff_def exact_def upt_rec)
  have ne: "[1, 3, 6 :: real] \<noteq> []" by simp
  note k = kernel_laws_exact [of "[1, 3, 6]"] kernel_laws_exact [of "forward_diff exact [1, 3, 6]"]
  from read_chromatogram_forward_difference [OF ne k]
  obtain df where "read_chromatogram exact exact [1, 3, 6] = Inr df"
    "map intensity df = [1, 3, 6 :: real]"
    "map first_diff df = forward_diff exact [1, 3, 6]"
    "map second_diff df = forward_diff exact (map first_diff df)"
    by (elim exE conjE)
  with f1 f2 ne k show ?thesis by auto
qed

text \<open>
  C2 as stated fails: on the signal \<open>[1, 3, 6]\<close>, where no operation rounds, the stored
  first derivative is \<open>[2, 3, -6]\<close>, whereas the backward difference with
  \<open>firstDiff[0] = signal[0]\<close> is \<open>[1, 2, 3]\<close>.
\<close>

theorem read_chromatogram_not_backward_difference:
  "read_chromatogram exact exact [1, 3, 6]
     = Inr [\<lparr>intensity = 1, first_diff = 2, second_diff = 1\<rparr>,
            \<lparr>intensity = 3, first_diff = 3, second_diff = - 9\<rparr>,
            \<lparr>intensity = 6, first_diff = - 6, second_diff = 6\<rparr>]
   \<and> spec_first_diff exact [1, 3, 6] = [1, 2, 3]"
  by code_simp


subsection \<open>Peak detection\<close>

lemma plateau_end_ge: "k \<le> plateau_end x m k v"
proof (induction x m k v rule: plateau_end.induct)
  case (1 x m k v)
  show ?case
  proof (cases "k < m \<and> x ! k = v")
    case True
    with 1 have "Suc k \<le> plateau_end x m (Suc k) v" by simp
    with True show ?thesis by (subst plateau_end.simps) simp
  next
    case False
    then show ?thesis by (subst plateau_end.simps) auto
  qed
qed

lemma plateau_end_le: "k \<le> m \<Longrightarrow> plateau_end x m k v \<le> m"
proof (induction x m k v rule: plateau_end.induct)
  case (1 x m k v)
  show ?case
  proof (cases "k < m \<and> x ! k = v")
    case True
    with 1 have "plateau_end x m (Suc k) v \<le> m" by simp
    with True show ?thesis by (subst plateau_end.simps) simp
  next
    case False
    then show ?thesis using 1(2) by (subst plateau_end.simps) auto
  qed
qed

lemma local_maxima_1d_loop_range:
  "0 < i \<Longrightarrow> p \<in> set (local_maxima_1d_loop x m i) \<Longrightarrow> 0 < p \<and> p < m"
proof (induction x m i rule: local_maxima_1d_loop.induct)
  case (1 x m i)
  let ?a = "plateau_end x m (i + 1) (x ! i)"
  from "1.prems"(2) have im: "i < m"
    by (subst (asm) local_maxima_1d_loop.simps) (auto split: if_splits)
  have a_ge: "i + 1 \<le> ?a" by (rule plateau_end_ge)
  have a_le: "?a \<le> m" using im by (intro plateau_end_le) simp
  show ?case
  proof (cases "x ! (i - 1) < x ! i")
    case rising: True
    show ?thesis
    proof (cases "x ! ?a < x ! i")
      case True
      from "1.prems"(2) im rising True
      have "p = (i + (?a - 1)) div 2 \<or> p \<in> set (local_maxima_1d_loop x m (?a + 1))"
        by (subst (asm) local_maxima_1d_loop.simps) (simp add: Let_def)
      then show ?thesis
      proof
        assume "p = (i + (?a - 1)) div 2"
        with a_ge a_le "1.prems"(1) im show ?thesis by auto
      next
        assume "p \<in> set (local_maxima_1d_loop x m (?a + 1))"
        with "1.IH"(1) [OF im rising refl True] show ?thesis by simp
      qed
    next
      case False
      from "1.prems"(2) im rising False
      have "p \<in> set (local_maxima_1d_loop x m (i + 1))"
        by (subst (asm) local_maxima_1d_loop.simps) (simp add: Let_def)
      with "1.IH"(2) [OF im rising refl False] show ?thesis by simp
    qed
  next
    case False
    from "1.prems"(2) im False
    have "p \<in> set (local_maxima_1d_loop x m (i + 1))"
      by (subst (asm) local_maxima_1d_loop.simps) simp
    with "1.IH"(3) [OF im False] show ?thesis by simp
  qed
qed

lemma local_maxima_1d_range:
  "p \<in> set (local_maxima_1d x) \<Longrightarrow> 0 < p \<and> p + 1 < length x"
  using local_maxima_1d_loop_range [of 1 p x "length x - 1"]
  by (auto simp: local_maxima_1d_def)

lemma by_mask_simps [simp]:
  "by_mask [] xs = []"
  "by_mask keep [] = []"
  "by_mask (k # keep) (x # xs) = (if k then x # by_mask keep xs else by_mask keep xs)"
  by (simp_all add: by_mask_def)

lemma by_mask_map_pred: "by_mask (map P xs) xs = filter P xs"
  by (induction xs) simp_all

lemma by_mask_map: "by_mask keep (map f xs) = map f (by_mask keep xs)"
  by (induction keep xs rule: list_induct2') simp_all

lemma set_by_mask: "set (by_mask keep xs) \<subseteq> set xs"
  by (induction keep xs rule: list_induct2') auto

lemma find_peaks_heights:
  "find_peaks x height threshold distance = (peaks, heights) \<Longrightarrow> heights = map ((!) x) peaks"
  unfolding find_peaks_def Let_def by (auto simp: by_mask_map)

lemma find_peaks_subset:
  assumes "find_peaks x height threshold distance = (peaks, heights)"
  shows "set peaks \<subseteq> set (filter (\<lambda>p. threshold \<le> min (x ! p - x ! (p - 1)) (x ! p - x ! (p + 1)))
                             (filter (\<lambda>p. height \<le> x ! p) (local_maxima_1d x)))"
proof -
  define ps1 where "ps1 = by_mask (map (\<lambda>h. height \<le> h) (map ((!) x) (local_maxima_1d x))) (local_maxima_1d x)"
  define ps2 where "ps2 = by_mask (select_by_peak_threshold x ps1 threshold) ps1"
  have h: "ps1 = filter (\<lambda>p. height \<le> x ! p) (local_maxima_1d x)"
    unfolding ps1_def map_map comp_def by (rule by_mask_map_pred)
  have t: "ps2 = filter (\<lambda>p. threshold \<le> min (x ! p - x ! (p - 1)) (x ! p - x ! (p + 1))) ps1"
    unfolding ps2_def select_by_peak_threshold_def by (rule by_mask_map_pred)
  from assms have "peaks = by_mask (select_by_peak_distance ps2 (map ((!) x) ps2) distance) ps2"
    unfolding find_peaks_def Let_def ps1_def ps2_def by simp
  then have "set peaks \<subseteq> set ps2" using set_by_mask by metis
  then show ?thesis unfolding t h .
qed

lemma find_peaks_sound:
  assumes "find_peaks x height threshold distance = (peaks, heights)" and "p \<in> set peaks"
  shows "height \<le> x ! p \<and> 0 < p \<and> p + 1 < length x
       \<and> threshold \<le> x ! p - x ! (p - 1) \<and> threshold \<le> x ! p - x ! (p + 1)"
  using find_peaks_subset [OF assms(1)] assms(2) local_maxima_1d_range [of p x]
  by auto

lemma pre_peak_data_total:
  "\<exists>pre. pre_peak_data x = Inr pre \<and> col_index pre = fst (find_peaks x 4000 1 2)"
proof -
  obtain peaks heights where fp: "find_peaks x 4000 1 2 = (peaks, heights)"
    by (cases "find_peaks x 4000 1 2")
  have "heights = map ((!) x) peaks" by (rule find_peaks_heights [OF fp])
  then show ?thesis by (simp add: pre_peak_data_def fp peaks_frame_def)
qed

text \<open>
  C7. Every peak of the detection stage has an intensity of at least the height threshold
  (\<open>height = 4000\<close>) and lies strictly above both of its neighbours; the \<open>height\<close> column
  holds the intensity at the peak's index; the stage returns a table and never an error,
  and the table is empty when no point of the signal qualifies.
\<close>

theorem pre_peak_data_sound:
  "\<exists>pre. pre_peak_data x = Inr pre
        \<and> col_height pre = map ((!) x) (col_index pre)
        \<and> (\<forall>p \<in> set (col_index pre).
              4000 \<le> x ! p \<and> 0 < p \<and> p + 1 < length x \<and> x ! (p - 1) < x ! p \<and> x ! (p + 1) < x ! p)
        \<and> ((\<forall>p. 0 < p \<and> p + 1 < length x \<and> x ! (p - 1) < x ! p \<and> x ! (p + 1) < x ! p
                \<longrightarrow> x ! p < 4000)
            \<longrightarrow> col_index pre = [])"
proof -
  obtain peaks heights where fp: "find_peaks x 4000 1 2 = (peaks, heights)"
    by (cases "find_peaks x 4000 1 2")
  have hs: "heights = map ((!) x) peaks" by (rule find_peaks_heights [OF fp])
  let ?pre = "\<lparr>col_index = peaks, col_height = heights, col_limits_idx = None,
               col_limits_val = None, col_area = None\<rparr>"
  have pre: "pre_peak_data x = Inr ?pre"
    by (simp add: pre_peak_data_def fp peaks_frame_def hs)
  have sound: "4000 \<le> x ! p \<and> 0 < p \<and> p + 1 < length x \<and> x ! (p - 1) < x ! p \<and> x ! (p + 1) < x ! p"
    if "p \<in> set peaks" for p
    using find_peaks_sound [OF fp that] by auto
  have empty: "peaks = []"
    if none: "\<forall>p. 0 < p \<and> p + 1 < length x \<and> x ! (p - 1) < x ! p \<and> x ! (p + 1) < x ! p \<longrightarrow> x ! p < 4000"
  proof (rule ccontr)
    assume "peaks \<noteq> []"
    then obtain p where p: "p \<in> set peaks" by (cases peaks) auto
    note s = sound [OF p]
    from s none have "x ! p < 4000" by blast
    with s show False by simp
  qed
  show ?thesis
  proof (intro exI [of _ ?pre] conjI)
    show "pre_peak_data x = Inr ?pre" by (rule pre)
    show "col_height ?pre = map ((!) x) (col_index ?pre)" using hs by simp
    show "\<forall>p \<in> set (col_index ?pre).
            4000 \<le> x ! p \<and> 0 < p \<and> p + 1 < length x \<and> x ! (p - 1) < x ! p \<and> x ! (p + 1) < x ! p"
      using sound by simp
    show "(\<forall>p. 0 < p \<and> p + 1 < length x \<and> x ! (p - 1) < x ! p \<and> x ! (p + 1) < x ! p
                \<longrightarrow> x ! p < 4000)
            \<longrightarrow> col_index ?pre = []"
      using empty by simp
  qed
qed

theorem pre_peak_data_sound_witness:
  "(\<exists>pre. pre_peak_data [3, 3, 3, 3, 3, 3, 3, 5000, 3, 3, 3, 3, 3, 3, 3, 3 :: real] = Inr pre
         \<and> 7 \<in> set (col_index pre)
         \<and> 4000 \<le> [3, 3, 3, 3, 3, 3, 3, 5000, 3, 3, 3, 3, 3, 3, 3, 3 :: real] ! 7 \<and> [3, 3, 3, 3, 3, 3, 3, 5000, 3, 3, 3, 3, 3, 3, 3, 3 :: real] ! (7 - 1) < [3, 3, 3, 3, 3, 3, 3, 5000, 3, 3, 3, 3, 3, 3, 3, 3 :: real] ! 7 \<and> [3, 3, 3, 3, 3, 3, 3, 5000, 3, 3, 3, 3, 3, 3, 3, 3 :: real] ! (7 + 1) < [3, 3, 3, 3, 3, 3, 3, 5000, 3, 3, 3, 3, 3, 3, 3, 3 :: real] ! 7)
   \<and> (\<exists>pre. pre_peak_data [1, 1, 1 :: real] = Inr pre \<and> col_index pre = [])"
proof (intro conjI)
  have eval: "pre_peak_data [3, 3, 3, 3, 3, 3, 3, 5000, 3, 3, 3, 3, 3, 3, 3, 3 :: real]
      = Inr \<lparr>col_index = [7], col_height = [5000], col_limits_idx = None,
              col_limits_val = None, col_area = None\<rparr>"
    by code_simp
  from pre_peak_data_sound [of "[3, 3, 3, 3, 3, 3, 3, 5000, 3, 3, 3, 3, 3, 3, 3, 3 :: real]"]
  obtain pre where pre: "pre_peak_data [3, 3, 3, 3, 3, 3, 3, 5000, 3, 3, 3, 3, 3, 3, 3, 3 :: real] = Inr pre"
    and sound: "\<forall>p \<in> set (col_index pre).
        4000 \<le> [3, 3, 3, 3, 3, 3, 3, 5000, 3, 3, 3, 3, 3, 3, 3, 3 :: real] ! p \<and> 0 < p \<and> p + 1 < length [3, 3, 3, 3, 3, 3, 3, 5000, 3, 3, 3, 3, 3, 3, 3, 3 :: real]
        \<and> [3, 3, 3, 3, 3, 3, 3, 5000, 3, 3, 3, 3, 3, 3, 3, 3 :: real] ! (p - 1) < [3, 3, 3, 3, 3, 3, 3, 5000, 3, 3, 3, 3, 3, 3, 3, 3 :: real] ! p \<and> [3, 3, 3, 3, 3, 3, 3, 5000, 3, 3, 3, 3, 3, 3, 3, 3 :: real] ! (p + 1) < [3, 3, 3, 3, 3, 3, 3, 5000, 3, 3, 3, 3, 3, 3, 3, 3 :: real] ! p"
    by blast
  from pre eval have "col_index pre = [7]" by auto
  then have "7 \<in> set (col_index pre)" by simp
  with sound pre
  show "\<exists>pre. pre_peak_data [3, 3, 3, 3, 3, 3, 3, 5000, 3, 3, 3, 3, 3, 3, 3, 3 :: real] = Inr pre
         \<and> 7 \<in> set (col_index pre)
         \<and> 4000 \<le> [3, 3, 3, 3, 3, 3, 3, 5000, 3, 3, 3, 3, 3, 3, 3, 3 :: real] ! 7 \<and> [3, 3, 3, 3, 3, 3, 3, 5000, 3, 3, 3, 3, 3, 3, 3, 3 :: real] ! (7 - 1) < [3, 3, 3, 3, 3, 3, 3, 5000, 3, 3, 3, 3, 3, 3, 3, 3 :: real] ! 7 \<and> [3, 3, 3, 3, 3, 3, 3, 5000, 3, 3, 3, 3, 3, 3, 3, 3 :: real] ! (7 + 1) < [3, 3, 3, 3, 3, 3, 3, 5000, 3, 3, 3, 3, 3, 3, 3, 3 :: real] ! 7"
    by blast
next
  have flat: "\<forall>p. 0 < p \<and> p + 1 < length [1, 1, 1 :: real]
            \<and> [1, 1, 1 :: real] ! (p - 1) < [1, 1, 1] ! p \<and> [1, 1, 1 :: real] ! (p + 1) < [1, 1, 1] ! p
          \<longrightarrow> [1, 1, 1 :: real] ! p < 4000"
    by (simp add: nth_Cons')
  from pre_peak_data_sound [of "[1, 1, 1 :: real]"] flat
  show "\<exists>pre. pre_peak_data [1, 1, 1 :: real] = Inr pre \<and> col_index pre = []"
    by blast
qed

subsection \<open>Interval assignment\<close>

lemma map_of_fold_update:
  "map_of (fold (\<lambda>k al. AList.update k (f k) al) ks acc) k
     = (if k \<in> set ks then Some (f k) else map_of acc k)"
  by (induction ks arbitrary: acc) (simp_all add: update_conv')

lemma map_of_post_peak_data:
  "map_of (post_peak_data pre intervals) interval
     = (if interval \<in> set intervals
        then Some (select_rows (map (\<lambda>i. fst interval < int i \<and> int i < snd interval) (col_index pre)) pre)
        else None)"
  unfolding post_peak_data_def
  using map_of_fold_update [of "\<lambda>interval. select_rows (map (\<lambda>i. fst interval < int i \<and> int i < snd interval) (col_index pre)) pre" intervals "[]" interval]
  by simp

lemma col_index_select_rows:
  "col_index (select_rows (map P (col_index t)) t) = filter P (col_index t)"
  by (simp add: select_rows_def by_mask_map_pred)

lemma deref_frames_cong:
  "(\<And>r. r \<in> snd ` set d \<Longrightarrow> frames h' r = frames h r) \<Longrightarrow> deref_frames h' d = deref_frames h d"
proof (induction d)
  case Nil
  then show ?case by simp
next
  case (Cons a d)
  obtain key r where a: "a = (key, r)" by (cases a)
  have "frames h' r = frames h r" using Cons.prems a by simp
  moreover have "deref_frames h' d = deref_frames h d" using Cons by simp
  ultimately show ?case by (simp add: a split: option.splits)
qed

lemma new_frames_step:
  assumes "new_frames h ((key, t) # al) = (h', d)"
  obtains d2 where
    "new_frames (h\<lparr>frames := (frames h)(next_ref h \<mapsto> t), next_ref := Suc (next_ref h)\<rparr>) al = (h', d2)"
    and "d = (key, next_ref h) # d2"
proof -
  let ?h1 = "h\<lparr>frames := (frames h)(next_ref h \<mapsto> t), next_ref := Suc (next_ref h)\<rparr>"
  obtain h2 d2 where rec: "new_frames ?h1 al = (h2, d2)" by (cases "new_frames ?h1 al")
  have "new_frames h ((key, t) # al) = (h2, (key, next_ref h) # d2)"
    by (simp add: new_frame_def rec)
  with assms have "h' = h2" "d = (key, next_ref h) # d2" by (metis prod.inject)+
  with rec that show thesis by blast
qed

lemma new_frames_props:
  "new_frames h al = (h', d) \<Longrightarrow>
     chromas h' = chromas h \<and> dicts h' = dicts h \<and> next_ref h' = next_ref h + length al
     \<and> (\<forall>r. r < next_ref h \<longrightarrow> frames h' r = frames h r)
     \<and> snd ` set d \<subseteq> {next_ref h..<next_ref h'}
     \<and> deref_frames h' d = Inr al"
proof (induction al arbitrary: h h' d)
  case Nil
  then show ?case by simp
next
  case (Cons a al)
  obtain key t where a: "a = (key, t)" by (cases a)
  let ?h1 = "h\<lparr>frames := (frames h)(next_ref h \<mapsto> t), next_ref := Suc (next_ref h)\<rparr>"
  from Cons.prems obtain d2 where rec: "new_frames ?h1 al = (h', d2)"
    and d: "d = (key, next_ref h) # d2"
    unfolding a by (rule new_frames_step)
  note IH = Cons.IH [OF rec]
  have c: "chromas h' = chromas h" using IH by simp
  have di: "dicts h' = dicts h" using IH by simp
  have n: "next_ref h' = next_ref h + length (a # al)" using IH by simp
  have f: "frames h' r = frames h r" if "r < next_ref h" for r
  proof -
    have "frames h' r = frames ?h1 r" using IH that by simp
    then show ?thesis using that by simp
  qed
  have here: "frames h' (next_ref h) = Some t"
  proof -
    have "frames h' (next_ref h) = frames ?h1 (next_ref h)" using IH by simp
    then show ?thesis by simp
  qed
  have s: "snd ` set d \<subseteq> {next_ref h..<next_ref h'}"
  proof -
    have "snd ` set d2 \<subseteq> {next_ref ?h1..<next_ref h'}" using IH by blast
    then have "snd ` set d2 \<subseteq> {Suc (next_ref h)..<next_ref h'}" by simp
    moreover have "next_ref h < next_ref h'" using n by simp
    ultimately show ?thesis unfolding d by auto
  qed
  have dr: "deref_frames h' d = Inr (a # al)"
  proof -
    have "deref_frames h' d2 = Inr al" using IH by simp
    then show ?thesis unfolding d a using here by simp
  qed
  from c di n f s dr show ?case by blast
qed

lemma by_mask_all_False: "by_mask (map (\<lambda>_. False) xs) ys = []"
  by (induction xs ys rule: list_induct2') simp_all

lemma peak_finder_result:
  assumes "chromas h data = Some df"
  obtains pre h1 d where "pre_peak_data (map intensity df) = Inr pre"
    and "new_frames h (post_peak_data pre intervals) = (h1, d)"
    and "peak_finder h data intervals = Inr (new_dict h1 d)"
proof -
  obtain pre where pre: "pre_peak_data (map intensity df) = Inr pre"
    using pre_peak_data_total by blast
  obtain h1 d where nf: "new_frames h (post_peak_data pre intervals) = (h1, d)"
    by (cases "new_frames h (post_peak_data pre intervals)")
  have "peak_finder h data intervals = Inr (new_dict h1 d)"
    by (simp add: peak_finder_def assms pre nf)
  with pre nf that show thesis by blast
qed

lemma tables_of_new_dict:
  "tables_of (fst (new_dict h d)) (snd (new_dict h d)) = deref_frames h d"
proof -
  have "deref_frames (fst (new_dict h d)) d = deref_frames h d"
    by (rule deref_frames_cong) (simp add: new_dict_def)
  then show ?thesis by (simp add: tables_of_def new_dict_def)
qed

lemma peak_finder_tables:
  assumes "chromas h data = Some df"
  obtains pre h' d where "pre_peak_data (map intensity df) = Inr pre"
    and "peak_finder h data intervals = Inr (h', d)"
    and "tables_of h' d = Inr (post_peak_data pre intervals)"
proof -
  from peak_finder_result [OF assms, of intervals]
  obtain pre h1 d1 where pre: "pre_peak_data (map intensity df) = Inr pre"
    and nf: "new_frames h (post_peak_data pre intervals) = (h1, d1)"
    and pf: "peak_finder h data intervals = Inr (new_dict h1 d1)"
    by blast
  have "tables_of (fst (new_dict h1 d1)) (snd (new_dict h1 d1)) = Inr (post_peak_data pre intervals)"
    using new_frames_props [OF nf] by (simp add: tables_of_new_dict)
  moreover have "peak_finder h data intervals = Inr (fst (new_dict h1 d1), snd (new_dict h1 d1))"
    using pf by simp
  ultimately show thesis using pre that by blast
qed

lemma by_mask_rows:
  "length hs = length idx \<Longrightarrow>
   filter P idx = map fst (filter (\<lambda>(p, hgt). P p) (zip idx hs))
   \<and> by_mask (map P idx) hs = map snd (filter (\<lambda>(p, hgt). P p) (zip idx hs))"
  by (induction hs idx rule: list_induct2) simp_all

lemma pre_peak_data_columns:
  assumes "pre_peak_data x = Inr pre"
  shows "length (col_height pre) = length (col_index pre)"
    and "col_limits_idx pre = None" and "col_limits_val pre = None" and "col_area pre = None"
  using assms
  by (auto simp: pre_peak_data_def peaks_frame_def split: prod.splits if_splits)

lemma select_rows_pre:
  assumes "pre_peak_data x = Inr pre"
  shows "select_rows (map P (col_index pre)) pre
       = \<lparr>col_index = map fst (filter (\<lambda>(p, hgt). P p) (zip (col_index pre) (col_height pre))),
          col_height = map snd (filter (\<lambda>(p, hgt). P p) (zip (col_index pre) (col_height pre))),
          col_limits_idx = None, col_limits_val = None, col_area = None\<rparr>"
  using pre_peak_data_columns [OF assms] by_mask_rows [of "col_height pre" "col_index pre" P]
  by (simp add: select_rows_def by_mask_map_pred)

lemma distinct_fold_update:
  "distinct (map fst acc) \<Longrightarrow>
   distinct (map fst (fold (\<lambda>k al. AList.update k (f k) al) ks acc))"
  by (induction ks arbitrary: acc) (simp_all add: distinct_update)

lemma distinct_post_peak_data: "distinct (map fst (post_peak_data pre intervals))"
  unfolding post_peak_data_def
  using distinct_fold_update [of "[]" "\<lambda>interval. select_rows (map (\<lambda>i. fst interval < int i \<and> int i < snd interval) (col_index pre)) pre" intervals]
  by simp

text \<open>
  C6. The dictionary that \<open>peak_finder\<close> returns has one table for each interval of
  \<open>intervals\<close> and no other. The table of the interval \<open>(s, e)\<close> consists of exactly the
  rows (index and height) of the detected peaks with \<open>s < index < e\<close>, in their order: a
  peak at a boundary is excluded, a peak inside several intervals is in the table of
  each, and a peak inside no interval leaves neither its index nor its height in any
  table.
\<close>

theorem peak_finder_interval_assignment:
  assumes "chromas h data = Some df"
  shows "\<exists>pre h' d tables.
           pre_peak_data (map intensity df) = Inr pre
         \<and> peak_finder h data intervals = Inr (h', d)
         \<and> tables_of h' d = Inr tables
         \<and> distinct (map fst tables)
         \<and> (\<forall>key. map_of tables key =
               (if key \<in> set intervals
                then Some \<lparr>col_index =
                             map fst (filter (\<lambda>(p, hgt). fst key < int p \<and> int p < snd key)
                                        (zip (col_index pre) (col_height pre))),
                           col_height =
                             map snd (filter (\<lambda>(p, hgt). fst key < int p \<and> int p < snd key)
                                        (zip (col_index pre) (col_height pre))),
                           col_limits_idx = None, col_limits_val = None, col_area = None\<rparr>
                else None))"
proof -
  from peak_finder_tables [OF assms, of intervals]
  obtain pre h' d where pre: "pre_peak_data (map intensity df) = Inr pre"
    and pf: "peak_finder h data intervals = Inr (h', d)"
    and tb: "tables_of h' d = Inr (post_peak_data pre intervals)"
    by blast
  let ?tables = "post_peak_data pre intervals"
  have m: "map_of ?tables key =
               (if key \<in> set intervals
                then Some \<lparr>col_index =
                             map fst (filter (\<lambda>(p, hgt). fst key < int p \<and> int p < snd key)
                                        (zip (col_index pre) (col_height pre))),
                           col_height =
                             map snd (filter (\<lambda>(p, hgt). fst key < int p \<and> int p < snd key)
                                        (zip (col_index pre) (col_height pre))),
                           col_limits_idx = None, col_limits_val = None, col_area = None\<rparr>
                else None)" for key
    unfolding map_of_post_peak_data select_rows_pre [OF pre] ..
  show ?thesis
    by (intro exI [of _ pre] exI [of _ h'] exI [of _ d] exI [of _ ?tables] conjI allI
        pre pf tb distinct_post_peak_data m)
qed

theorem peak_finder_interval_assignment_witness:
  "(let df = [\<lparr>intensity = 0, first_diff = 5000, second_diff = - 10000\<rparr>,
              \<lparr>intensity = 5000, first_diff = - 5000, second_diff = 11000\<rparr>,
              \<lparr>intensity = 0, first_diff = 6000, second_diff = - 12000\<rparr>,
              \<lparr>intensity = 6000, first_diff = - 6000, second_diff = 6000\<rparr>,
              \<lparr>intensity = 0, first_diff = 0, second_diff = 0\<rparr>];
        h = \<lparr>chromas = [0 \<mapsto> df], frames = Map.empty, dicts = Map.empty, next_ref = 1\<rparr>
    in chromas h 0 = Some df
     \<and> (\<exists>h' d tables.
            peak_finder h 0 [(0, 2), (2, 5), (0, 5), (1, 3)] = Inr (h', d)
          \<and> tables_of h' d = Inr tables
          \<and> map_of tables (0, 2)
              = Some \<lparr>col_index = [1], col_height = [5000], col_limits_idx = None,
                      col_limits_val = None, col_area = None\<rparr>
          \<and> map_of tables (2, 5)
              = Some \<lparr>col_index = [3], col_height = [6000], col_limits_idx = None,
                      col_limits_val = None, col_area = None\<rparr>
          \<and> map_of tables (0, 5)
              = Some \<lparr>col_index = [1, 3], col_height = [5000, 6000], col_limits_idx = None,
                      col_limits_val = None, col_area = None\<rparr>
          \<and> map_of tables (1, 3)
              = Some \<lparr>col_index = [], col_height = [], col_limits_idx = None,
                      col_limits_val = None, col_area = None\<rparr>
          \<and> map_of tables (0, 6) = None))"
proof -
  define df where "df = [\<lparr>intensity = 0, first_diff = 5000, second_diff = - 10000\<rparr>,
              \<lparr>intensity = 5000, first_diff = - 5000, second_diff = 11000\<rparr>,
              \<lparr>intensity = 0, first_diff = 6000, second_diff = - 12000\<rparr>,
              \<lparr>intensity = 6000, first_diff = - 6000, second_diff = 6000\<rparr>,
              \<lparr>intensity = 0 :: real, first_diff = 0, second_diff = 0\<rparr>]"
  define h where "h = \<lparr>chromas = [0 \<mapsto> df], frames = Map.empty, dicts = Map.empty, next_ref = 1\<rparr>"
  have c: "chromas h 0 = Some df" by (simp add: h_def)
  have pre: "pre_peak_data (map intensity df)
      = Inr \<lparr>col_index = [1, 3], col_height = [5000, 6000], col_limits_idx = None,
              col_limits_val = None, col_area = None\<rparr>"
    unfolding df_def by code_simp
  from peak_finder_interval_assignment [OF c, of "[(0, 2), (2, 5), (0, 5), (1, 3)]"]
  obtain pre' h' d tables where p: "pre_peak_data (map intensity df) = Inr pre'"
    and pf: "peak_finder h 0 [(0, 2), (2, 5), (0, 5), (1, 3)] = Inr (h', d)"
    and tb: "tables_of h' d = Inr tables"
    and m: "\<And>key. map_of tables key =
               (if key \<in> set [(0, 2), (2, 5), (0, 5), (1, 3)]
                then Some \<lparr>col_index =
                             map fst (filter (\<lambda>(p, hgt). fst key < int p \<and> int p < snd key)
                                        (zip (col_index pre') (col_height pre'))),
                           col_height =
                             map snd (filter (\<lambda>(p, hgt). fst key < int p \<and> int p < snd key)
                                        (zip (col_index pre') (col_height pre'))),
                           col_limits_idx = None, col_limits_val = None, col_area = None\<rparr>
                else None)"
    by blast
  from p pre have ci: "col_index pre' = [1, 3]" "col_height pre' = [5000, 6000]" by auto
  have "map_of tables (0, 2)
              = Some \<lparr>col_index = [1], col_height = [5000], col_limits_idx = None,
                      col_limits_val = None, col_area = None\<rparr>"
    unfolding m ci by simp
  moreover have "map_of tables (2, 5)
              = Some \<lparr>col_index = [3], col_height = [6000], col_limits_idx = None,
                      col_limits_val = None, col_area = None\<rparr>"
    unfolding m ci by simp
  moreover have "map_of tables (0, 5)
              = Some \<lparr>col_index = [1, 3], col_height = [5000, 6000], col_limits_idx = None,
                      col_limits_val = None, col_area = None\<rparr>"
    unfolding m ci by simp
  moreover have "map_of tables (1, 3)
              = Some \<lparr>col_index = [], col_height = [], col_limits_idx = None,
                      col_limits_val = None, col_area = None\<rparr>"
    unfolding m ci by simp
  moreover have "map_of tables (0, 6) = None"
    unfolding m by simp
  ultimately show ?thesis
    using c pf tb unfolding Let_def df_def [symmetric] h_def [symmetric] by blast
qed

text \<open>
  C5, amended. No input is validated before the stages run. For every non-empty signal, of
  any length and in any arithmetic, \<open>read_chromatogram\<close> returns its frame, and \<open>peak_finder\<close> on it returns a
  dictionary in which an interval with \<open>start \<ge> end\<close> has an empty peak table; no error
  is raised.
\<close>

theorem no_input_validation:
  assumes "y \<noteq> []" and "(s, e) \<in> set intervals" and "e \<le> s"
  shows "\<exists>df h' d tables t.
           read_chromatogram ar fl y = Inr df
         \<and> peak_finder (fst (new_chroma empty_heap df)) (snd (new_chroma empty_heap df)) intervals
             = Inr (h', d)
         \<and> tables_of h' d = Inr tables
         \<and> map_of tables (s, e) = Some t \<and> col_index t = [] \<and> col_height t = []"
proof -
  obtain df where df: "read_chromatogram ar fl y = Inr df"
    using read_chromatogram_returns [OF assms(1)] by blast
  let ?h = "fst (new_chroma empty_heap df)" and ?c = "snd (new_chroma empty_heap df)"
  have "chromas ?h ?c = Some df" by (simp add: new_chroma_def)
  from peak_finder_tables [OF this, of intervals]
  obtain pre h' d where pf: "peak_finder ?h ?c intervals = Inr (h', d)"
    and tb: "tables_of h' d = Inr (post_peak_data pre intervals)"
    by blast
  let ?t = "select_rows (map (\<lambda>i. s < int i \<and> int i < e) (col_index pre)) pre"
  have none: "(\<lambda>i. s < int i \<and> int i < e) = (\<lambda>_. False)" using assms(3) by auto
  have "map_of (post_peak_data pre intervals) (s, e) = Some ?t"
    using assms(2) by (simp add: map_of_post_peak_data)
  moreover have "col_index ?t = []" "col_height ?t = []"
    unfolding none by (simp_all add: select_rows_def by_mask_all_False)
  ultimately show ?thesis using df pf tb by blast
qed

theorem no_input_validation_witness:
  "[1, 2 :: real] \<noteq> [] \<and> ((5, 5) :: int \<times> int) \<in> set [(5, 5)] \<and> (5 :: int) \<le> 5
   \<and> (\<exists>df h' d tables t.
           read_chromatogram exact exact [1, 2] = Inr df
         \<and> peak_finder (fst (new_chroma empty_heap df)) (snd (new_chroma empty_heap df)) [(5, 5)]
             = Inr (h', d)
         \<and> tables_of h' d = Inr tables
         \<and> map_of tables (5, 5) = Some t \<and> col_index t = [] \<and> col_height t = [])"
  using no_input_validation [where y = "[1, 2]" and s = 5 and e = 5 and intervals = "[(5, 5)]"
      and ar = exact and fl = exact]
  by simp

text \<open>
  C5 as stated fails: on a signal of two samples and the interval \<open>[5, 5]\<close> the script
  runs all four stages and returns a table.
\<close>

theorem pipeline_accepts_short_signal: "pipeline exact exact [1, 2 :: real] [(5, 5)]
     = Inr [((5, 5), \<lparr>col_index = [], col_height = [], col_limits_idx = Some [],
                       col_limits_val = Some [], col_area = Some []\<rparr>)]"
  by code_simp

subsection \<open>Boundary search\<close>

lemma find_upt_Some:
  "find P [a..<b] = Some j \<longleftrightarrow> a \<le> j \<and> j < b \<and> P j \<and> (\<forall>k. a \<le> k \<and> k < j \<longrightarrow> \<not> P k)"
proof (induction "b - a" arbitrary: a)
  case 0
  then show ?case by auto
next
  case (Suc n)
  then have ab: "a < b" and n: "n = b - Suc a" by auto
  have upt: "[a..<b] = a # [Suc a..<b]" using ab by (simp add: upt_rec)
  show ?case
  proof (cases "P a")
    case True
    then show ?thesis using ab unfolding upt
      by (auto simp: le_less)
  next
    case False
    have "find P [a..<b] = find P [Suc a..<b]" unfolding upt using False by simp
    also have "\<dots> = Some j \<longleftrightarrow> Suc a \<le> j \<and> j < b \<and> P j \<and> (\<forall>k. Suc a \<le> k \<and> k < j \<longrightarrow> \<not> P k)"
      using Suc.hyps(1) [OF n] .
    finally show ?thesis using False
      by (metis Suc_leD Suc_leI le_neq_implies_less)
  qed
qed

lemma find_upt_None:
  "find P [a..<b] = None \<longleftrightarrow> (\<forall>k. a \<le> k \<and> k < b \<longrightarrow> \<not> P k)"
  by (auto simp: find_None_iff)

lemma find_rev_upt_Some:
  "find P (rev [0..<n]) = Some j \<longleftrightarrow> j < n \<and> P j \<and> (\<forall>k. j < k \<and> k < n \<longrightarrow> \<not> P k)"
proof (induction n)
  case 0
  then show ?case by simp
next
  case (Suc n)
  show ?case
  proof (cases "P n")
    case True
    then show ?thesis by (auto simp: less_Suc_eq) 
  next
    case False
    then show ?thesis using Suc
      by (auto simp: less_Suc_eq)
  qed
qed

lemma find_rev_upt_None:
  "find P (rev [0..<n]) = None \<longleftrightarrow> (\<forall>k. k < n \<longrightarrow> \<not> P k)"
  by (auto simp: find_None_iff)


lemma limit_of_option_eq:
  "(case r of None \<Rightarrow> NoneStr | Some j \<Rightarrow> Limit j) = Limit k \<longleftrightarrow> r = Some k"
  "(case r of None \<Rightarrow> NoneStr | Some j \<Rightarrow> Limit j) = NoneStr \<longleftrightarrow> r = None"
  by (cases r; simp)+

lemma peak_limits_idx:
  "fst (peak_limits y dy min_slope p)
     = (case find (\<lambda>j. \<bar>dy ! j\<bar> < min_slope) (rev [0..<p - width]) of
          None \<Rightarrow> NoneStr | Some j \<Rightarrow> Limit j,
        case find (\<lambda>j. \<bar>dy ! j\<bar> < min_slope) [p + width..<length dy] of
          None \<Rightarrow> NoneStr | Some j \<Rightarrow> Limit j)"
  by (simp add: peak_limits_def Let_def)

lemma peak_limits_right:
  "snd (fst (peak_limits y dy min_slope p)) = Limit j \<longleftrightarrow>
     p + width \<le> j \<and> j < length dy \<and> \<bar>dy ! j\<bar> < min_slope
     \<and> (\<forall>k. p + width \<le> k \<and> k < j \<longrightarrow> \<not> \<bar>dy ! k\<bar> < min_slope)"
  unfolding peak_limits_idx snd_conv limit_of_option_eq find_upt_Some ..

lemma peak_limits_left:
  "fst (fst (peak_limits y dy min_slope p)) = Limit j \<longleftrightarrow>
     j < p - width \<and> \<bar>dy ! j\<bar> < min_slope
     \<and> (\<forall>k. j < k \<and> k < p - width \<longrightarrow> \<not> \<bar>dy ! k\<bar> < min_slope)"
  unfolding peak_limits_idx fst_conv limit_of_option_eq find_rev_upt_Some ..

lemma peak_limits_right_unresolved:
  "snd (fst (peak_limits y dy min_slope p)) = NoneStr \<longleftrightarrow>
     (\<forall>k. p + width \<le> k \<and> k < length dy \<longrightarrow> \<not> \<bar>dy ! k\<bar> < min_slope)"
  unfolding peak_limits_idx snd_conv limit_of_option_eq find_upt_None ..

lemma peak_limits_left_unresolved:
  "fst (fst (peak_limits y dy min_slope p)) = NoneStr \<longleftrightarrow>
     (\<forall>k. k < p - width \<longrightarrow> \<not> \<bar>dy ! k\<bar> < min_slope)"
  unfolding peak_limits_idx fst_conv limit_of_option_eq find_rev_upt_None ..

lemma peak_limits_values:
  "snd (peak_limits y dy min_slope p)
     = (case fst (fst (peak_limits y dy min_slope p)) of
          NoneStr \<Rightarrow> NoneStr | Limit j \<Rightarrow> Limit (y ! j),
        case snd (fst (peak_limits y dy min_slope p)) of
          NoneStr \<Rightarrow> NoneStr | Limit j \<Rightarrow> Limit (y ! j))"
  by (simp add: peak_limits_def Let_def split: option.splits)

text \<open>
  C4. The backward scan should start at \<open>p - width\<close>, as the forward scan starts at
  \<open>p + width\<close>. On the chromatogram of the signal below, the peak is at index 7 and the
  slope at index \<open>7 - width = 2\<close> is below \<open>min_slope = 5\<close>, yet the left limit found is
  1: the backward loop starts at \<open>p - width - 1\<close>. The right limit is 12, the first
  index from \<open>p + width\<close> on with a slope below \<open>min_slope\<close>.
\<close>

theorem peak_limits_backward_scan_starts_below:
  "(case read_chromatogram exact exact [3, 3, 3, 3, 3, 3, 3, 5000, 3, 3, 3, 3, 3, 3, 3, 3 :: real] of
      Inl e \<Rightarrow> False
    | Inr df \<Rightarrow>
        peak_limits (map intensity df) (map (\<lambda>s. \<bar>first_diff s\<bar>) df) 5 7
          = ((Limit 1, Limit 12), (Limit 3, Limit 3))
        \<and> \<bar>first_diff (df ! (7 - width))\<bar> < 5)"
  by code_simp

subsection \<open>Integration\<close>

lemma areas_resolved:
  "areas fl points limits_list = Inr a \<Longrightarrow>
   \<forall>limit \<in> set limits_list. fst limit \<noteq> NoneStr \<and> snd limit \<noteq> NoneStr"
proof (induction limits_list arbitrary: a)
  case Nil
  then show ?case by simp
next
  case (Cons limit limits_list)
  from Cons.prems obtain y where y: "select_between points limit = Inr y"
    by (auto split: sum.splits)
  then have "fst limit \<noteq> NoneStr \<and> snd limit \<noteq> NoneStr"
    by (auto simp: select_between_def split: limit.splits)
  moreover from Cons.prems obtain rest where "areas fl points limits_list = Inr rest"
    by (auto split: sum.splits)
  ultimately show ?case using Cons.IH by auto
qed

text \<open>
  C1. The integration stage should integrate the slice \<open>signal[left:right + 1]\<close>. On the
  signal below, the peak at index 7 gets the limits 1 and 12. The samples that
  \<open>peak_integration\<close> selects are those whose intensity lies strictly between 1 and 12:
  the fifteen samples of value 3, at positions inside and outside the index range, and not
  the peak sample. Their area is 42. The slice \<open>signal[1:13]\<close> is twelve samples, the peak
  among them.
\<close>

theorem peak_integration_selects_by_value:
  "pipeline exact exact [3, 3, 3, 3, 3, 3, 3, 5000, 3, 3, 3, 3, 3, 3, 3, 3 :: real] [(0, 16)]
     = Inr [((0, 16),
             \<lparr>col_index = [7], col_height = [5000],
              col_limits_idx = Some [(Limit 1, Limit 12)],
              col_limits_val = Some [(Limit 3, Limit 3)],
              col_area = Some [42]\<rparr>)]
   \<and> select_between [3, 3, 3, 3, 3, 3, 3, 5000, 3, 3, 3, 3, 3, 3, 3, 3 :: real] (Limit 1, Limit 12) = Inr [3, 3, 3, 3, 3, 3, 3, 3, 3, 3, 3, 3, 3, 3, 3]
   \<and> take (12 + 1 - 1) (drop 1 [3, 3, 3, 3, 3, 3, 3, 5000, 3, 3, 3, 3, 3, 3, 3, 3 :: real]) = [3, 3, 3, 3, 3, 3, 5000, 3, 3, 3, 3, 3]"
  by code_simp

text \<open>
  C3. A peak with an unresolved side should be left out of the integration and stay in the
  output table. On the signal below, the peak at index 3 has no left limit, since the
  backward range is empty: \<open>limits_finder\<close> records \<open>"None"\<close> for it and the index 8 for
  the right limit. \<open>peak_integration\<close> then compares the intensities with \<open>"None"\<close> and
  raises TypeError, so the script ends without any table.
\<close>

theorem peak_integration_unresolved_raises:
  "(case read_chromatogram exact exact [3, 3, 3, 5000, 3, 3, 3, 3, 3, 3, 3, 3 :: real] of
      Inl e \<Rightarrow> False
    | Inr df \<Rightarrow>
        fst (peak_limits (map intensity df) (map (\<lambda>s. \<bar>first_diff s\<bar>) df) 5 3)
          = (NoneStr, Limit 8))
   \<and> areas exact [3, 3, 3, 5000, 3, 3, 3, 3, 3, 3, 3, 3 :: real] [(NoneStr, Limit 8)] = Inl TypeError
   \<and> pipeline exact exact [3, 3, 3, 5000, 3, 3, 3, 3, 3, 3, 3, 3 :: real] [(0, 12)] = Inl TypeError"
  by code_simp

subsection \<open>Quadrature\<close>


















subsection \<open>Effects of the stages on the objects\<close>

lemma heap_dicts_triv:
  "dicts h pd = Some d \<Longrightarrow> h\<lparr>frames := fr, dicts := (dicts h)(pd \<mapsto> d)\<rparr> = h\<lparr>frames := fr\<rparr>"
  by (simp add: map_upd_triv)

lemma limits_loop_step:
  assumes "limits_loop h y dy min_slope pd (key # keys) = Inr h'"
  obtains d r t where "dicts h pd = Some d" and "map_of d key = Some r" and "frames h r = Some t"
    and "limits_loop (h\<lparr>frames := (frames h)(r \<mapsto> set_limits y dy min_slope t)\<rparr>)
           y dy min_slope pd keys = Inr h'"
proof -
  from assms obtain d where d: "dicts h pd = Some d"
    by (cases "dicts h pd") simp_all
  from assms d obtain r where r: "map_of d key = Some r"
    by (cases "map_of d key") simp_all
  from assms d r obtain t where t: "frames h r = Some t"
    by (cases "frames h r") simp_all
  have "AList.update key r d = d" using r by (rule update_triv)
  with assms d r t
  have "limits_loop (h\<lparr>frames := (frames h)(r \<mapsto> set_limits y dy min_slope t)\<rparr>)
           y dy min_slope pd keys = Inr h'"
    by (simp add: heap_dicts_triv)
  with d r t that show thesis by blast
qed

lemma limits_loop_frame:
  "limits_loop h y dy min_slope pd keys = Inr h' \<Longrightarrow>
     chromas h' = chromas h \<and> dicts h' = dicts h \<and> next_ref h' = next_ref h
     \<and> (\<forall>r. (\<forall>d. dicts h pd = Some d \<longrightarrow> r \<notin> snd ` set d) \<longrightarrow> frames h' r = frames h r)"
proof (induction keys arbitrary: h)
  case Nil
  then show ?case by simp
next
  case (Cons key keys)
  from Cons.prems obtain d r t where d: "dicts h pd = Some d" and r: "map_of d key = Some r"
    and t: "frames h r = Some t"
    and rec: "limits_loop (h\<lparr>frames := (frames h)(r \<mapsto> set_limits y dy min_slope t)\<rparr>)
           y dy min_slope pd keys = Inr h'"
    by (rule limits_loop_step)
  let ?h1 = "h\<lparr>frames := (frames h)(r \<mapsto> set_limits y dy min_slope t)\<rparr>"
  note IH = Cons.IH [OF rec]
  have rd: "r \<in> snd ` set d" using map_of_SomeD [OF r] by force
  have "frames h' q = frames h q" if "\<forall>d. dicts h pd = Some d \<longrightarrow> q \<notin> snd ` set d" for q
  proof -
    from that d have q: "q \<notin> snd ` set d" by simp
    with rd have "q \<noteq> r" by blast
    moreover have "frames h' q = frames ?h1 q" using IH q d by simp
    ultimately show ?thesis by simp
  qed
  moreover have "chromas h' = chromas h" "dicts h' = dicts h" "next_ref h' = next_ref h"
    using IH by simp_all
  ultimately show ?case by blast
qed

lemma integration_loop_step:
  assumes "integration_loop fl h points pd (key # keys) = Inr h'"
  obtains d r t t' where "dicts h pd = Some d" and "map_of d key = Some r" and "frames h r = Some t"
    and "set_area fl points t = Inr t'"
    and "integration_loop fl (h\<lparr>frames := (frames h)(r \<mapsto> t')\<rparr>) points pd keys = Inr h'"
proof -
  from assms obtain d where d: "dicts h pd = Some d"
    by (cases "dicts h pd") simp_all
  from assms d obtain r where r: "map_of d key = Some r"
    by (cases "map_of d key") simp_all
  from assms d r obtain t where t: "frames h r = Some t"
    by (cases "frames h r") simp_all
  from assms d r t obtain t' where t': "set_area fl points t = Inr t'"
    by (cases "set_area fl points t") simp_all
  have "AList.update key r d = d" using r by (rule update_triv)
  with assms d r t t'
  have "integration_loop fl (h\<lparr>frames := (frames h)(r \<mapsto> t')\<rparr>) points pd keys = Inr h'"
    by (simp add: heap_dicts_triv)
  with d r t t' that show thesis by blast
qed

lemma integration_loop_frame:
  "integration_loop fl h points pd keys = Inr h' \<Longrightarrow>
     chromas h' = chromas h \<and> dicts h' = dicts h \<and> next_ref h' = next_ref h
     \<and> (\<forall>r. (\<forall>d. dicts h pd = Some d \<longrightarrow> r \<notin> snd ` set d) \<longrightarrow> frames h' r = frames h r)"
proof (induction keys arbitrary: h)
  case Nil
  then show ?case by simp
next
  case (Cons key keys)
  from Cons.prems obtain d r t t' where d: "dicts h pd = Some d" and r: "map_of d key = Some r"
    and t: "frames h r = Some t"
    and rec: "integration_loop fl (h\<lparr>frames := (frames h)(r \<mapsto> t')\<rparr>) points pd keys = Inr h'"
    by (rule integration_loop_step)
  let ?h1 = "h\<lparr>frames := (frames h)(r \<mapsto> t')\<rparr>"
  note IH = Cons.IH [OF rec]
  have rd: "r \<in> snd ` set d" using map_of_SomeD [OF r] by force
  have "frames h' q = frames h q" if "\<forall>d. dicts h pd = Some d \<longrightarrow> q \<notin> snd ` set d" for q
  proof -
    from that d have q: "q \<notin> snd ` set d" by simp
    with rd have "q \<noteq> r" by blast
    moreover have "frames h' q = frames ?h1 q" using IH q d by simp
    ultimately show ?thesis by simp
  qed
  moreover have "chromas h' = chromas h" "dicts h' = dicts h" "next_ref h' = next_ref h"
    using IH by simp_all
  ultimately show ?case by blast
qed

lemma limits_finder_frame:
  assumes "limits_finder h chroma_data peaks_data intervals min_slope = Inr (h', res)"
  shows "res = peaks_data \<and> chromas h' = chromas h \<and> dicts h' = dicts h \<and> next_ref h' = next_ref h
       \<and> (\<forall>r. (\<forall>d. dicts h peaks_data = Some d \<longrightarrow> r \<notin> snd ` set d) \<longrightarrow> frames h' r = frames h r)"
proof -
  from assms obtain df where df: "chromas h chroma_data = Some df"
    by (cases "chromas h chroma_data") (simp_all add: limits_finder_def)
  from assms df obtain d where d: "dicts h peaks_data = Some d"
    by (cases "dicts h peaks_data") (simp_all add: limits_finder_def)
  from assms df d
  have "limits_loop h (map intensity df) (map (\<lambda>s. \<bar>first_diff s\<bar>) df) min_slope peaks_data (map fst d) = Inr h'"
    and "res = peaks_data"
    by (auto simp: limits_finder_def split: sum.splits)
  then show ?thesis using limits_loop_frame by blast
qed

lemma peak_integration_frame:
  assumes "peak_integration fl g h chroma_data peaks_info = Inr (h', res)"
  shows "res = g \<and> chromas h' = chromas h \<and> dicts h' = dicts h \<and> next_ref h' = next_ref h
       \<and> (\<forall>r. (\<forall>d. dicts h g = Some d \<longrightarrow> r \<notin> snd ` set d) \<longrightarrow> frames h' r = frames h r)"
proof -
  from assms obtain df where df: "chromas h chroma_data = Some df"
    by (cases "chromas h chroma_data") (simp_all add: peak_integration_def)
  from assms df obtain d where d: "dicts h g = Some d"
    by (cases "dicts h g") (simp_all add: peak_integration_def)
  from assms df d
  have "integration_loop fl h (map intensity df) g (map fst d) = Inr h'" and "res = g"
    by (auto simp: peak_integration_def split: sum.splits)
  then show ?thesis using integration_loop_frame by blast
qed

lemma set_limits_idem:
  "set_limits y dy min_slope (set_limits y dy min_slope t) = set_limits y dy min_slope t"
  by (simp add: set_limits_def Let_def)

lemma col_index_set_limits [simp]: "col_index (set_limits y dy min_slope t) = col_index t"
  by (simp add: set_limits_def Let_def)

lemma limits_loop_result:
  assumes "dicts h pd = Some d" and "set keys \<subseteq> fst ` set d"
    and "\<forall>r \<in> snd ` set d. frames h r \<noteq> None"
  shows "\<exists>h'. limits_loop h y dy min_slope pd keys = Inr h'
            \<and> (\<forall>r. frames h' r = (if \<exists>k \<in> set keys. map_of d k = Some r
                                    then map_option (set_limits y dy min_slope) (frames h r)
                                    else frames h r))"
  using assms
proof (induction keys arbitrary: h)
  case Nil
  then show ?case by simp
next
  case (Cons key keys)
  from Cons.prems(2) have "key \<in> fst ` set d" by simp
  then obtain r where r: "map_of d key = Some r"
    by (metis domD dom_map_of_conv_image_fst)
  then have rd: "r \<in> snd ` set d" using map_of_SomeD by force
  with Cons.prems(3) obtain t where t: "frames h r = Some t" by auto
  let ?h1 = "h\<lparr>frames := (frames h)(r \<mapsto> set_limits y dy min_slope t)\<rparr>"
  have upd: "AList.update key r d = d" using r by (rule update_triv)
  have step: "limits_loop h y dy min_slope pd (key # keys) = limits_loop ?h1 y dy min_slope pd keys"
    using Cons.prems(1) r t upd by (simp add: heap_dicts_triv)
  have "dicts ?h1 pd = Some d" using Cons.prems(1) by simp
  moreover have "set keys \<subseteq> fst ` set d" using Cons.prems(2) by simp
  moreover have "\<forall>q \<in> snd ` set d. frames ?h1 q \<noteq> None" using Cons.prems(3) by simp
  ultimately obtain h' where h': "limits_loop ?h1 y dy min_slope pd keys = Inr h'"
    and fr: "\<And>q. frames h' q = (if \<exists>k \<in> set keys. map_of d k = Some q
                                    then map_option (set_limits y dy min_slope) (frames ?h1 q)
                                    else frames ?h1 q)"
    using Cons.IH [of ?h1] by blast
  have "frames h' q = (if \<exists>k \<in> set (key # keys). map_of d k = Some q
                       then map_option (set_limits y dy min_slope) (frames h q)
                       else frames h q)" for q
  proof (cases "q = r")
    case True
    then show ?thesis using fr [of q] t r by (auto simp: set_limits_idem)
  next
    case False
    then show ?thesis using fr [of q] r by auto
  qed
  with h' step show ?case by simp
qed

lemma limits_finder_result:
  assumes "chromas h chroma_data = Some df" and "dicts h peaks_data = Some d"
    and "distinct (map fst d)" and "\<forall>r \<in> snd ` set d. frames h r \<noteq> None"
  shows "\<exists>h'. limits_finder h chroma_data peaks_data intervals min_slope = Inr (h', peaks_data)
            \<and> chromas h' = chromas h \<and> dicts h' = dicts h
            \<and> (\<forall>r. frames h' r =
                  (if r \<in> snd ` set d
                   then map_option (set_limits (map intensity df) (map (\<lambda>s. \<bar>first_diff s\<bar>) df) min_slope)
                          (frames h r)
                   else frames h r))"
proof -
  let ?y = "map intensity df" and ?dy = "map (\<lambda>s. \<bar>first_diff s\<bar>) df"
  have "set (map fst d) \<subseteq> fst ` set d" by simp
  from limits_loop_result [OF assms(2) this assms(4), of ?y ?dy min_slope]
  obtain h' where loop: "limits_loop h ?y ?dy min_slope peaks_data (map fst d) = Inr h'"
    and fr: "\<And>r. frames h' r = (if \<exists>k \<in> set (map fst d). map_of d k = Some r
                                    then map_option (set_limits ?y ?dy min_slope) (frames h r)
                                    else frames h r)"
    by blast
  have mem: "(\<exists>k \<in> set (map fst d). map_of d k = Some r) \<longleftrightarrow> r \<in> snd ` set d" for r
  proof
    assume "\<exists>k \<in> set (map fst d). map_of d k = Some r"
    then show "r \<in> snd ` set d" using map_of_SomeD by force
  next
    assume "r \<in> snd ` set d"
    then obtain k where kr: "(k, r) \<in> set d" by auto
    then have "map_of d k = Some r" using assms(3) by simp
    moreover have "k \<in> set (map fst d)" using kr by force
    ultimately show "\<exists>k \<in> set (map fst d). map_of d k = Some r" by blast
  qed
  have res: "limits_finder h chroma_data peaks_data intervals min_slope = Inr (h', peaks_data)"
    by (simp add: limits_finder_def assms(1,2) loop)
  from limits_finder_frame [OF res] have "chromas h' = chromas h" "dicts h' = dicts h" by simp_all
  with res fr mem show ?thesis by simp
qed

text \<open>
  C9, amended. Every stage leaves the chromatogram frames unchanged. \<open>peak_finder\<close>
  returns a newly allocated dictionary and changes no existing table or dictionary.
  \<open>limits_finder\<close> returns the dictionary it was given, not a copy, and replaces in place
  each table that the dictionary refers to by the table with the limit columns assigned;
  no other table changes. \<open>peak_integration\<close> leaves the dictionaries unchanged and
  changes only tables that the dictionary it returns refers to.
\<close>

theorem stages_share_peak_tables:
  "(chromas h data = Some df \<longrightarrow>
      (\<exists>h1 d1. peak_finder h data intervals = Inr (h1, d1)
          \<and> chromas h1 = chromas h \<and> next_ref h \<le> d1
          \<and> (\<forall>r < next_ref h. frames h1 r = frames h r \<and> dicts h1 r = dicts h r)))
   \<and> (chromas h data = Some df \<and> dicts h peaks_data = Some d \<and> distinct (map fst d)
        \<and> (\<forall>r \<in> snd ` set d. frames h r \<noteq> None) \<longrightarrow>
      (\<exists>h2. limits_finder h data peaks_data intervals min_slope = Inr (h2, peaks_data)
          \<and> chromas h2 = chromas h \<and> dicts h2 = dicts h
          \<and> (\<forall>r. frames h2 r =
                (if r \<in> snd ` set d
                 then map_option (set_limits (map intensity df) (map (\<lambda>s. \<bar>first_diff s\<bar>) df) min_slope)
                        (frames h r)
                 else frames h r))))
   \<and> (peak_integration fl g h data peaks_info = Inr (h_out, d_out) \<longrightarrow>
        chromas h_out = chromas h \<and> dicts h_out = dicts h
        \<and> (\<forall>r. (\<forall>d. dicts h d_out = Some d \<longrightarrow> r \<notin> snd ` set d) \<longrightarrow> frames h_out r = frames h r))"
proof (intro conjI impI)
  assume c: "chromas h data = Some df"
  from peak_finder_result [OF c, of intervals]
  obtain pre h1 d1 where nf: "new_frames h (post_peak_data pre intervals) = (h1, d1)"
    and pf: "peak_finder h data intervals = Inr (new_dict h1 d1)"
    by blast
  note p = new_frames_props [OF nf]
  let ?h' = "fst (new_dict h1 d1)" and ?d' = "snd (new_dict h1 d1)"
  have "peak_finder h data intervals = Inr (?h', ?d')" using pf by simp
  moreover have "chromas ?h' = chromas h" using p by (simp add: new_dict_def)
  moreover have "next_ref h \<le> ?d'" using p by (simp add: new_dict_def)
  moreover have "\<forall>r < next_ref h. frames ?h' r = frames h r \<and> dicts ?h' r = dicts h r"
    using p by (simp add: new_dict_def)
  ultimately show "\<exists>h1 d1. peak_finder h data intervals = Inr (h1, d1)
          \<and> chromas h1 = chromas h \<and> next_ref h \<le> d1
          \<and> (\<forall>r < next_ref h. frames h1 r = frames h r \<and> dicts h1 r = dicts h r)"
    by (intro exI [of _ ?h'] exI [of _ ?d'] conjI)
next
  assume "chromas h data = Some df \<and> dicts h peaks_data = Some d \<and> distinct (map fst d)
        \<and> (\<forall>r \<in> snd ` set d. frames h r \<noteq> None)"
  then have "chromas h data = Some df" and "dicts h peaks_data = Some d"
    and "distinct (map fst d)" and "\<forall>r \<in> snd ` set d. frames h r \<noteq> None"
    by simp_all
  then show "\<exists>h2. limits_finder h data peaks_data intervals min_slope = Inr (h2, peaks_data)
          \<and> chromas h2 = chromas h \<and> dicts h2 = dicts h
          \<and> (\<forall>r. frames h2 r =
                (if r \<in> snd ` set d
                 then map_option (set_limits (map intensity df) (map (\<lambda>s. \<bar>first_diff s\<bar>) df) min_slope)
                        (frames h r)
                 else frames h r))"
    by (rule limits_finder_result)
next
  assume a: "peak_integration fl g h data peaks_info = Inr (h_out, d_out)"
  note f = peak_integration_frame [OF a]
  from f show "chromas h_out = chromas h" by simp
  from f show "dicts h_out = dicts h" by simp
  from f show "\<forall>r. (\<forall>d. dicts h d_out = Some d \<longrightarrow> r \<notin> snd ` set d) \<longrightarrow> frames h_out r = frames h r"
    by simp
qed

theorem stages_share_peak_tables_witness:
  "(let df = [\<lparr>intensity = 3, first_diff = 0, second_diff = 0\<rparr>,
              \<lparr>intensity = 3, first_diff = 0, second_diff = 0\<rparr>,
              \<lparr>intensity = 3, first_diff = 0, second_diff = 0\<rparr>,
              \<lparr>intensity = 3, first_diff = 0, second_diff = 0\<rparr>,
              \<lparr>intensity = 3, first_diff = 0, second_diff = 4997\<rparr>,
              \<lparr>intensity = 3, first_diff = 4997, second_diff = - 9994\<rparr>,
              \<lparr>intensity = 5000, first_diff = - 4997, second_diff = 4997\<rparr>,
              \<lparr>intensity = 3, first_diff = 0, second_diff = 0\<rparr>,
              \<lparr>intensity = 3, first_diff = 0, second_diff = 0\<rparr>,
              \<lparr>intensity = 3, first_diff = 0, second_diff = 0\<rparr>,
              \<lparr>intensity = 3, first_diff = 0, second_diff = - 3\<rparr>,
              \<lparr>intensity = 3 :: real, first_diff = - 3, second_diff = 3\<rparr>];
        t = \<lparr>col_index = [6], col_height = [5000], col_limits_idx = None,
             col_limits_val = None, col_area = None\<rparr>;
        tl = \<lparr>col_index = [6], col_height = [5000], col_limits_idx = Some [(Limit 0, Limit 11)],
              col_limits_val = Some [(Limit 3, Limit 3)], col_area = None\<rparr>;
        ta = \<lparr>col_index = [6], col_height = [5000], col_limits_idx = Some [(Limit 0, Limit 11)],
              col_limits_val = Some [(Limit 3, Limit 3)], col_area = Some [30]\<rparr>;
        h = \<lparr>chromas = [0 \<mapsto> df], frames = [1 \<mapsto> t], dicts = [2 \<mapsto> [((0, 12), 1)]],
             next_ref = 3\<rparr>;
        hl = \<lparr>chromas = [0 \<mapsto> df], frames = [1 \<mapsto> tl], dicts = [2 \<mapsto> [((0, 12), 1)]],
              next_ref = 3\<rparr>;
        ha = \<lparr>chromas = [0 \<mapsto> df], frames = [1 \<mapsto> ta], dicts = [2 \<mapsto> [((0, 12), 1)]],
              next_ref = 3\<rparr>
    in read_chromatogram exact exact [3, 3, 3, 3, 3, 3, 5000, 3, 3, 3, 3, 3 :: real] = Inr df
     \<and> chromas h 0 = Some df \<and> dicts h 2 = Some [((0, 12), 1)]
     \<and> distinct (map fst [((0 :: int, 12 :: int), 1 :: nat)]) \<and> frames h 1 = Some t
     \<and> (\<exists>h1 d1. peak_finder h 0 [(0, 12)] = Inr (h1, d1) \<and> chromas h1 = chromas h
            \<and> next_ref h \<le> d1 \<and> frames h1 1 = frames h 1 \<and> dicts h1 2 = dicts h 2)
     \<and> (\<exists>h2. limits_finder h 0 2 [(0, 12)] 5 = Inr (h2, 2) \<and> chromas h2 = chromas h
            \<and> dicts h2 = dicts h \<and> frames h2 1 = Some tl \<and> frames h2 1 \<noteq> frames h 1
            \<and> frames h2 0 = frames h 0)
     \<and> peak_integration exact 2 hl 0 2 = Inr (ha, 2)
     \<and> chromas ha = chromas hl \<and> dicts ha = dicts hl \<and> frames ha 0 = frames hl 0)"
proof -
  define df where "df = [\<lparr>intensity = 3, first_diff = 0, second_diff = 0\<rparr>,
              \<lparr>intensity = 3, first_diff = 0, second_diff = 0\<rparr>,
              \<lparr>intensity = 3, first_diff = 0, second_diff = 0\<rparr>,
              \<lparr>intensity = 3, first_diff = 0, second_diff = 0\<rparr>,
              \<lparr>intensity = 3, first_diff = 0, second_diff = 4997\<rparr>,
              \<lparr>intensity = 3, first_diff = 4997, second_diff = - 9994\<rparr>,
              \<lparr>intensity = 5000, first_diff = - 4997, second_diff = 4997\<rparr>,
              \<lparr>intensity = 3, first_diff = 0, second_diff = 0\<rparr>,
              \<lparr>intensity = 3, first_diff = 0, second_diff = 0\<rparr>,
              \<lparr>intensity = 3, first_diff = 0, second_diff = 0\<rparr>,
              \<lparr>intensity = 3, first_diff = 0, second_diff = - 3\<rparr>,
              \<lparr>intensity = 3 :: real, first_diff = - 3, second_diff = 3\<rparr>]"
  define t where "t = \<lparr>col_index = [6], col_height = [5000], col_limits_idx = None,
             col_limits_val = None, col_area = None\<rparr>"
  define tl where "tl = \<lparr>col_index = [6], col_height = [5000],
              col_limits_idx = Some [(Limit 0, Limit 11)],
              col_limits_val = Some [(Limit 3, Limit 3)], col_area = None\<rparr>"
  define ta where "ta = \<lparr>col_index = [6], col_height = [5000],
              col_limits_idx = Some [(Limit 0, Limit 11)],
              col_limits_val = Some [(Limit 3, Limit 3)], col_area = Some [30]\<rparr>"
  define h where "h = \<lparr>chromas = [0 \<mapsto> df], frames = [1 \<mapsto> t], dicts = [2 \<mapsto> [((0, 12), 1)]],
             next_ref = 3\<rparr>"
  define hl where "hl = \<lparr>chromas = [0 \<mapsto> df], frames = [1 \<mapsto> tl], dicts = [2 \<mapsto> [((0, 12), 1)]],
              next_ref = 3\<rparr>"
  define ha where "ha = \<lparr>chromas = [0 \<mapsto> df], frames = [1 \<mapsto> ta], dicts = [2 \<mapsto> [((0, 12), 1)]],
              next_ref = 3\<rparr>"
  have rc: "read_chromatogram exact exact [3, 3, 3, 3, 3, 3, 5000, 3, 3, 3, 3, 3 :: real] = Inr df"
    unfolding df_def by code_simp
  have c: "chromas h 0 = Some df" and d: "dicts h 2 = Some [((0, 12), 1)]"
    and f: "\<forall>r \<in> snd ` set [((0 :: int, 12 :: int), 1 :: nat)]. frames h r \<noteq> None"
    and f1: "frames h 1 = Some t" and n: "next_ref h = 3"
    by (simp_all add: h_def)
  have dist: "distinct (map fst [((0 :: int, 12 :: int), 1 :: nat)])" by simp
  have sl: "set_limits (map intensity df) (map (\<lambda>s. \<bar>first_diff s\<bar>) df) 5 t = tl"
    unfolding df_def t_def tl_def by code_simp
  have ar: "areas exact (map intensity df) [(Limit 0, Limit 11)] = Inr [30]"
    unfolding df_def by code_simp
  have sa: "set_area exact (map intensity df) tl = Inr ta"
    unfolding set_area_def tl_def ta_def using ar by (simp del: areas.simps)
  have pi: "peak_integration exact 2 hl 0 2 = Inr (ha, 2)"
    by (simp add: peak_integration_def hl_def ha_def sa)
  note T = stages_share_peak_tables [where h = h and data = 0 and df = df
      and intervals = "[(0, 12)]" and peaks_data = 2 and d = "[((0, 12), 1)]" and min_slope = 5]
  from T c obtain h1 d1 where p1: "peak_finder h 0 [(0, 12)] = Inr (h1, d1)"
      "chromas h1 = chromas h" "next_ref h \<le> d1"
      "\<forall>r < next_ref h. frames h1 r = frames h r \<and> dicts h1 r = dicts h r"
    by blast
  from p1(4) n have q1: "frames h1 1 = frames h 1" "dicts h1 2 = dicts h 2" by simp_all
  from T c d dist f obtain h2 where p2: "limits_finder h 0 2 [(0, 12)] 5 = Inr (h2, 2)"
      "chromas h2 = chromas h" "dicts h2 = dicts h"
      "\<forall>r. frames h2 r =
                (if r \<in> snd ` set [((0 :: int, 12 :: int), 1 :: nat)]
                 then map_option (set_limits (map intensity df) (map (\<lambda>s. \<bar>first_diff s\<bar>) df) 5)
                        (frames h r)
                 else frames h r)"
    by blast
  from p2(4) [rule_format, of 1] f1 sl have q2: "frames h2 1 = Some tl" by simp
  from p2(4) [rule_format, of 0] have q2': "frames h2 0 = frames h 0" by simp
  have "tl \<noteq> t" by (simp add: tl_def t_def)
  with q2 f1 have q2'': "frames h2 1 \<noteq> frames h 1" by simp
  note T' = stages_share_peak_tables [where h = hl and fl = exact and g = 2 and data = 0
      and peaks_info = 2 and h_out = ha and d_out = 2]
  from T' pi have p3: "chromas ha = chromas hl" "dicts ha = dicts hl"
      "\<forall>r. (\<forall>d. dicts hl 2 = Some d \<longrightarrow> r \<notin> snd ` set d) \<longrightarrow> frames ha r = frames hl r"
    by blast+
  have "dicts hl 2 = Some [((0, 12), 1)]" by (simp add: hl_def)
  with p3(3) [rule_format, of 0] have q3: "frames ha 0 = frames hl 0" by simp
  from rc c d dist f1 p1(1-3) q1 p2(1-3) q2 q2' q2'' pi p3(1,2) q3
  show ?thesis
    unfolding Let_def df_def [symmetric] t_def [symmetric] tl_def [symmetric] ta_def [symmetric]
      h_def [symmetric] hl_def [symmetric] ha_def [symmetric]
    by blast
qed

text \<open>
  The heap that \<open>peak_finder\<close> builds for the signal \<open>[0, 5000, 0]\<close> and the interval
  \<open>[0, 3]\<close>: the chromatogram at 0, the peak table at 1, the dictionary at 2.
\<close>

lemma peak_finder_example:
  "peak_finder
     \<lparr>chromas = [0 \<mapsto> [\<lparr>intensity = 0, first_diff = 5000, second_diff = - 10000\<rparr>,
                         \<lparr>intensity = 5000, first_diff = - 5000, second_diff = 5000\<rparr>,
                         \<lparr>intensity = 0, first_diff = 0, second_diff = 0\<rparr>]],
      frames = Map.empty, dicts = Map.empty, next_ref = 1\<rparr>
     0 [(0, 3)]
   = Inr (\<lparr>chromas = [0 \<mapsto> [\<lparr>intensity = 0, first_diff = 5000, second_diff = - 10000\<rparr>,
                         \<lparr>intensity = 5000, first_diff = - 5000, second_diff = 5000\<rparr>,
                         \<lparr>intensity = 0, first_diff = 0, second_diff = 0\<rparr>]],
      frames = [1 \<mapsto> \<lparr>col_index = [1], col_height = [5000], col_limits_idx = None,
                        col_limits_val = None, col_area = None\<rparr>],
      dicts = [2 \<mapsto> [((0, 3), 1)]], next_ref = 3\<rparr>, 2)"
proof -
  have pre: "pre_peak_data [0, 5000, 0] = Inr \<lparr>col_index = [1], col_height = [5000], col_limits_idx = None,
                        col_limits_val = None, col_area = None\<rparr>"
    by code_simp
  show ?thesis
    by (simp add: peak_finder_def pre post_peak_data_def select_rows_def new_frame_def new_dict_def
        numeral_2_eq_2)
qed

text \<open>
  C9 as stated fails: on that heap \<open>limits_finder\<close> returns the reference 2 of the
  dictionary it was given, and the peak table at 1, the output of \<open>peak_finder\<close>, has
  been changed: it now has the two limit columns.
\<close>

theorem limits_finder_updates_in_place:
  "limits_finder
     \<lparr>chromas = [0 \<mapsto> [\<lparr>intensity = 0, first_diff = 5000, second_diff = - 10000\<rparr>,
                         \<lparr>intensity = 5000, first_diff = - 5000, second_diff = 5000\<rparr>,
                         \<lparr>intensity = 0, first_diff = 0, second_diff = 0\<rparr>]],
      frames = [1 \<mapsto> \<lparr>col_index = [1], col_height = [5000], col_limits_idx = None,
                        col_limits_val = None, col_area = None\<rparr>],
      dicts = [2 \<mapsto> [((0, 3), 1)]], next_ref = 3\<rparr>
     0 2 [(0, 3)] 5
   = Inr (\<lparr>chromas = [0 \<mapsto> [\<lparr>intensity = 0, first_diff = 5000, second_diff = - 10000\<rparr>,
                               \<lparr>intensity = 5000, first_diff = - 5000, second_diff = 5000\<rparr>,
                               \<lparr>intensity = 0, first_diff = 0, second_diff = 0\<rparr>]],
            frames = [1 \<mapsto> \<lparr>col_index = [1], col_height = [5000],
                              col_limits_idx = Some [(NoneStr, NoneStr)],
                              col_limits_val = Some [(NoneStr, NoneStr)], col_area = None\<rparr>],
            dicts = [2 \<mapsto> [((0, 3), 1)]], next_ref = 3\<rparr>, 2)"
  by (simp add: limits_finder_def set_limits_def peak_limits_def width_def)

end
